theory Spec2Isabelle
  imports Main "HOL-Library.Sublist"
begin

section \<open>Values shared by the two surfaces\<close>

text \<open>
  The repository has two entry points: \<^verbatim>\<open>main.py\<close> (the command surface, built on
  argparse) and \<^verbatim>\<open>app.py\<close> (the interactive surface, a Streamlit script). Both drive a
  \<^verbatim>\<open>MultimodalRAG\<close> object through \<^verbatim>\<open>load_index()\<close> and \<^verbatim>\<open>query(...)\<close>.

  A Python \<^verbatim>\<open>str\<close> is a \<^typ>\<open>string\<close>; a value that may be \<^verbatim>\<open>None\<close> is an option.
  A retrieved source is a dict with string keys, read only through \<^verbatim>\<open>d.get(key, default)\<close>.
\<close>

type_synonym doc = "string \<rightharpoonup> string"

text \<open>
  An exception (an instance of \<^verbatim>\<open>Exception\<close>): its class and the text that \<^verbatim>\<open>str(e)\<close>
  gives. The classes are those of the specification's sections 5 and 7, with
  \<open>UnpairedBatch\<close> for a batch whose two lists differ in length and \<open>OtherError\<close> for any
  other exception.
\<close>

datatype error_kind =
    EmptyQuery | DimensionMismatch | EmbeddingFailure | EmbeddingTimeout
  | IngestItemError | IngestBackendError | GenerationFailure | GenerationTimeout
  | IndexNotFound | UnpairedBatch | OtherError

datatype exn = Exn (kind: error_kind) (message: string)

text \<open>Python truthiness of an optional string: \<^verbatim>\<open>None\<close> and \<^verbatim>\<open>""\<close> are false.\<close>

fun truthy :: "string option \<Rightarrow> bool" where
  "truthy None = False"
| "truthy (Some s) = (s \<noteq> [])"

text \<open>\<^verbatim>\<open>x or d\<close> for an optional string \<^verbatim>\<open>x\<close> and a string \<^verbatim>\<open>d\<close>.\<close>

fun or_else :: "string option \<Rightarrow> string \<Rightarrow> string" where
  "or_else None d = d"
| "or_else (Some s) d = (if s \<noteq> [] then s else d)"

text \<open>\<^verbatim>\<open>d.get(key, default)\<close>.\<close>

definition get :: "doc \<Rightarrow> string \<Rightarrow> string \<Rightarrow> string" where
  "get d k dflt = (case d k of None \<Rightarrow> dflt | Some v \<Rightarrow> v)"

text \<open>\<^verbatim>\<open>str(n)\<close> for a natural number and for an integer: the decimal digits.\<close>

definition digit :: "nat \<Rightarrow> char" where
  "digit n = ''0123456789'' ! n"

fun str_nat :: "nat \<Rightarrow> string" where
  "str_nat n = (if n < 10 then [digit n] else str_nat (n div 10) @ [digit (n mod 10)])"

declare str_nat.simps [simp del]

definition str_int :: "int \<Rightarrow> string" where
  "str_int i = (if i < 0 then CHR ''-'' # str_nat (nat (- i)) else str_nat (nat i))"

definition default_prompt :: string where
  "default_prompt = ''What is in this image?''"

text \<open>
  One call of \<^verbatim>\<open>rag.query\<close> as a call site writes it: the question, the image path
  (\<^verbatim>\<open>None\<close> when the keyword is left out or given as \<^verbatim>\<open>None\<close>) and \<^verbatim>\<open>top_k\<close>
  (\<^verbatim>\<open>None\<close> when the call site leaves the keyword out).
\<close>

record query_call =
  call_question :: string
  call_image :: "string option"
  call_top_k :: "int option"

text \<open>
  The file system as far as the surfaces touch it: a map from paths to file contents.
  \<^verbatim>\<open>rag.query\<close> is a parameter of both surfaces: given the file system and the
  arguments of the call it raises (\<open>Inl\<close>) or returns the answer and the retrieved
  sources (\<open>Inr\<close>), and may leave the file system changed.
\<close>

type_synonym fs = "string \<rightharpoonup> string"

type_synonym query_result = "exn + string \<times> doc list"

type_synonym query_fn = "fs \<Rightarrow> query_call \<Rightarrow> query_result \<times> fs"

section \<open>The interactive surface (app.py)\<close>

text \<open>What the Streamlit script puts on the page, in order.\<close>

datatype ui =
    Warning string | Error string | Success string
  | Subheader string | Write string | Expander string string

datatype query_type = Text | Image

text \<open>
  The widgets of the Query tab on one run of the script: the radio button, the text
  widget shown for it, the uploaded file (its bytes) and whether the search button was
  pressed on this run.
\<close>

record tab1_inputs =
  radio_query_type :: query_type
  text_question :: string
  file_upload :: "string option"
  search_pressed :: bool

definition tmp :: string where
  "tmp = ''tmp_query.png''"

text \<open>
  Lines 87-89: \<^verbatim>\<open>for i, d in enumerate(docs, 1)\<close> opens an expander labelled
  \<^verbatim>\<open>f"**{i+1}. [{d.get('type', 'text')}]** {d.get('source', 'N/A')}"\<close> holding the content.
\<close>

definition expander_label :: "nat \<Rightarrow> doc \<Rightarrow> string" where
  "expander_label i d =
     ''**'' @ str_nat (i + 1) @ ''. ['' @ get d ''type'' ''text'' @ '']** '' @ get d ''source'' ''N/A''"

definition show_sources :: "doc list \<Rightarrow> ui list" where
  "show_sources docs =
     map (\<lambda>(i, d). Expander (expander_label i d) (get d ''content'' '''')) (List.enumerate 1 docs)"

definition show_result :: "string \<Rightarrow> doc list \<Rightarrow> ui list" where
  "show_result answer docs =
     [Subheader ''Answer'', Write answer, Subheader ''Retrieved Sources''] @ show_sources docs"

text \<open>
  Lines 72-89, the body of the \<^verbatim>\<open>try\<close>: with an upload, the bytes are written to
  \<^verbatim>\<open>tmp_query.png\<close>, the query runs, and the \<^verbatim>\<open>finally\<close> clause unlinks the file
  (\<^verbatim>\<open>missing_ok=True\<close>) whether the query returned or raised; without an upload the
  query runs on the question alone. The result is what the block displays, or the
  exception that leaves it, with the calls of \<^verbatim>\<open>rag.query\<close> made and the file system
  left behind.
\<close>

definition query_block ::
  "query_fn \<Rightarrow> string \<Rightarrow> string option \<Rightarrow> fs \<Rightarrow> (exn + ui list) \<times> query_call list \<times> fs" where
  "query_block query q query_image files =
     (case query_image of
        Some bytes \<Rightarrow>
          (let files1 = files(tmp \<mapsto> bytes);
               c = \<lparr>call_question = or_else (Some q) default_prompt,
                    call_image = Some tmp, call_top_k = None\<rparr>;
               (r, files2) = query files1 c;
               files3 = files2(tmp := None)
           in (case r of
                 Inl e \<Rightarrow> (Inl e, [c], files3)
               | Inr (answer, docs) \<Rightarrow> (Inr (show_result answer docs), [c], files3)))
      | None \<Rightarrow>
          (let c = \<lparr>call_question = q, call_image = None, call_top_k = None\<rparr>;
               (r, files2) = query files c
           in (case r of
                 Inl e \<Rightarrow> (Inl e, [c], files2)
               | Inr (answer, docs) \<Rightarrow> (Inr (show_result answer docs), [c], files2))))"

text \<open>
  Lines 54-55: when \<^verbatim>\<open>rag.load_index()\<close> returned false (\<open>loaded\<close> is what it returned on
  this run) a warning is shown, and the script goes on.
\<close>

definition index_warning :: "bool \<Rightarrow> ui list" where
  "index_warning loaded =
     (if loaded then []
      else [Warning ''No index found. Ingest documents and images first using the sidebar or Ingest tab.''])"

text \<open>
  Lines 54-91, the Query tab. In Text mode \<^verbatim>\<open>query_image\<close> is \<^verbatim>\<open>None\<close> whatever was
  uploaded before. The \<^verbatim>\<open>except Exception\<close> clause turns an exception of the block into
  \<^verbatim>\<open>st.error(str(e))\<close>.
\<close>

definition tab1 :: "bool \<Rightarrow> query_fn \<Rightarrow> tab1_inputs \<Rightarrow> fs \<Rightarrow> ui list \<times> query_call list \<times> fs" where
  "tab1 loaded query inp files =
     (let warn = index_warning loaded;
          q = text_question inp;
          query_image = (case radio_query_type inp of Text \<Rightarrow> None | Image \<Rightarrow> file_upload inp)
      in if search_pressed inp then
           (if \<not> truthy (Some q) \<and> query_image = None then
              (warn @ [Error ''Provide a text question or an image.''], [], files)
            else
              (case query_block query q query_image files of
                 (Inl e, calls, files') \<Rightarrow> (warn @ [Error (message e)], calls, files')
               | (Inr shown, calls, files') \<Rightarrow> (warn @ shown, calls, files')))
         else (warn, [], files))"

text \<open>
  Lines 30-36 and 101-107: each of the two ingest buttons runs \<^verbatim>\<open>ingest_all()\<close> inside a
  \<^verbatim>\<open>try\<close> and shows the two counts, or the text of the exception. \<open>r\<close> is what
  \<^verbatim>\<open>ingest_all()\<close> did: raised (\<open>Inl\<close>) or returned the counts.
\<close>

definition ingest_button :: "exn + nat \<times> nat \<Rightarrow> ui list" where
  "ingest_button r =
     (case r of
        Inl e \<Rightarrow> [Error (message e)]
      | Inr (doc_count, img_count) \<Rightarrow>
          [Success (''Added '' @ str_nat doc_count @ '' text chunks and '' @ str_nat img_count @ '' images.'')])"

section \<open>The command surface (main.py)\<close>

text \<open>The namespace argparse builds for the \<^verbatim>\<open>query\<close> subcommand.\<close>

record query_args =
  arg_question :: "string option"
  arg_image :: "string option"
  arg_top_k :: int

text \<open>How a command ends: it returns, or an exception leaves it uncaught.\<close>

datatype outcome = Returned | Uncaught exn

text \<open>
  Lines 60-62: \<^verbatim>\<open>for i, d in enumerate(docs, 1)\<close> prints
  \<^verbatim>\<open>f"\n{i}. [{d.get('type')}] {d.get('source', 'N/A')}"\<close> and then the content, cut to
  200 characters and followed by \<^verbatim>\<open>...\<close> when it is longer. A missing \<^verbatim>\<open>type\<close>
  prints as \<^verbatim>\<open>None\<close>.
\<close>

definition source_line :: "nat \<Rightarrow> doc \<Rightarrow> string" where
  "source_line i d =
     [CHR 0x0A] @ str_nat i @ ''. ['' @ get d ''type'' ''None'' @ ''] '' @ get d ''source'' ''N/A''"

definition content_line :: "doc \<Rightarrow> string" where
  "content_line d =
     (if length (get d ''content'' '''') > 200 then take 200 (get d ''content'' '''') @ ''...''
      else get d ''content'' '''')"

definition print_sources :: "doc list \<Rightarrow> string list" where
  "print_sources docs =
     concat (map (\<lambda>(i, d). [source_line i d, content_line d]) (List.enumerate 1 docs))"

definition no_index_message :: string where
  "no_index_message = ''Error: No index found. Run '' @ [CHR 0x27] @ ''ingest'' @ [CHR 0x27] @ '' first.''"

text \<open>
  Lines 44-62. \<open>loaded\<close> is what \<^verbatim>\<open>rag.load_index()\<close> returned. The result is the lines
  printed, the calls of \<^verbatim>\<open>rag.query\<close> made, how the command ended and the file system.
  There is no \<^verbatim>\<open>try\<close> in the function: an exception of \<^verbatim>\<open>rag.query\<close> leaves it.
\<close>

definition cmd_query ::
  "bool \<Rightarrow> query_fn \<Rightarrow> query_args \<Rightarrow> fs \<Rightarrow> string list \<times> query_call list \<times> outcome \<times> fs" where
  "cmd_query loaded query args files =
     (if \<not> loaded then ([no_index_message], [], Returned, files)
      else
        (let q = or_else (arg_question args) default_prompt;
             query_image = (if truthy (arg_image args) then arg_image args else None);
             c = \<lparr>call_question = q, call_image = query_image, call_top_k = Some (arg_top_k args)\<rparr>;
             (r, files') = query files c
         in (case r of
               Inl e \<Rightarrow> ([''Retrieving and generating...''], [c], Uncaught e, files')
             | Inr (answer, docs) \<Rightarrow>
                 ([''Retrieving and generating...'', [CHR 0x0A] @ ''--- Answer ---'', answer,
                   [CHR 0x0A] @ ''--- Retrieved Sources ---''] @ print_sources docs,
                  [c], Returned, files'))))"

section \<open>The retrieval engine behind the surfaces\<close>

text \<open>
  \<^verbatim>\<open>src/vector_store.py\<close>, \<^verbatim>\<open>src/rag.py\<close>, \<^verbatim>\<open>src/ingest.py\<close>, \<^verbatim>\<open>src/embeddings.py\<close> and
  \<^verbatim>\<open>src/config.py\<close> are imported by both surfaces but are not among the source files at
  hand. The definitions of this section follow the specification's sections 3 and 4
  instead; each says so. The components of a vector are never inspected, so their type
  is left open.
\<close>

text \<open>
  Modelled from the spec: the SourceRecord and the Index of section 3, which
  \<^verbatim>\<open>src/vector_store.py\<close> holds: the vectors and the records are two collections related
  by position.
\<close>

datatype record_type = TextRecord | ImageRecord

record source_record =
  rec_id :: nat
  rec_type :: record_type
  rec_source :: string
  rec_content :: string
  chunk_index :: "nat option"
  page :: "nat option"

record 'a store =
  dimension :: nat
  vectors :: "'a list list"
  records :: "source_record list"

text \<open>
  Modelled from the spec: the Vector Index Store of \<^verbatim>\<open>src/vector_store.py\<close> (section 4.2).
  \<open>count\<close> is the number of stored vectors; \<open>add\<close> appends one pair and fails with
  \<open>DimensionMismatch\<close> when the vector's length is not the store's dimension. The text
  of the exceptions is not given by the spec: the class name stands for it.
\<close>

definition new_store :: "nat \<Rightarrow> 'a store" where
  "new_store d = \<lparr>dimension = d, vectors = [], records = []\<rparr>"

definition count :: "'a store \<Rightarrow> nat" where
  "count s = length (vectors s)"

definition add :: "'a store \<Rightarrow> 'a list \<Rightarrow> source_record \<Rightarrow> exn + 'a store" where
  "add s v r =
     (if length v \<noteq> dimension s then Inl (Exn DimensionMismatch ''DimensionMismatch'')
      else Inr (s\<lparr>vectors := vectors s @ [v], records := records s @ [r]\<rparr>))"

text \<open>
  One store grows into another: same dimension, and the vectors and the records of the
  first are the beginning of those of the second (section 3: an index is grown by
  ingestion, its pairs stay where they are).
\<close>

definition grows :: "'a store \<Rightarrow> 'a store \<Rightarrow> bool" where
  "grows s s' =
     (dimension s' = dimension s \<and> prefix (vectors s) (vectors s') \<and> prefix (records s) (records s')
      \<and> length (vectors s') - length (vectors s) = length (records s') - length (records s))"

text \<open>
  Modelled from the spec: \<^verbatim>\<open>add_batch(vectors, records)\<close> of \<^verbatim>\<open>src/vector_store.py\<close>, "same,
  atomically for the batch". \<open>add_all\<close> adds the pairs one after the other on a working
  copy and stops at the first failure; a vector without a record (or a record without a
  vector) is a failure too, since no pair can be formed. \<open>add_batch\<close> keeps the working
  copy only when every pair went in; it returns the outcome and the store after the call.
\<close>

fun add_all :: "'a store \<Rightarrow> 'a list list \<Rightarrow> source_record list \<Rightarrow> exn + 'a store" where
  "add_all s [] [] = Inr s"
| "add_all s (v # vs) (r # rs) =
     (case add s v r of Inl e \<Rightarrow> Inl e | Inr s' \<Rightarrow> add_all s' vs rs)"
| "add_all s _ _ = Inl (Exn UnpairedBatch ''UnpairedBatch'')"

definition add_batch :: "'a store \<Rightarrow> 'a list list \<Rightarrow> source_record list \<Rightarrow> (exn + unit) \<times> 'a store" where
  "add_batch s vs rs =
     (case add_all s vs rs of Inl e \<Rightarrow> (Inl e, s) | Inr s' \<Rightarrow> (Inr (), s'))"

text \<open>
  Modelled from the spec: \<^verbatim>\<open>load\<close> of \<^verbatim>\<open>src/vector_store.py\<close> and \<^verbatim>\<open>load_index\<close> of
  \<^verbatim>\<open>src/rag.py\<close>. \<open>persisted\<close> is the saved index on durable storage, if there is one.
  Loading returns whether an index was found, and the store afterwards; an index saved
  with another dimension is a \<open>DimensionMismatch\<close> at load time.
\<close>

definition load :: "'a store option \<Rightarrow> 'a store \<Rightarrow> exn + bool \<times> 'a store" where
  "load persisted s =
     (case persisted of
        None \<Rightarrow> Inr (False, s)
      | Some p \<Rightarrow>
          (if dimension p \<noteq> dimension s then Inl (Exn DimensionMismatch ''DimensionMismatch'')
           else Inr (True, p)))"

definition load_index :: "'a store option \<Rightarrow> 'a store \<Rightarrow> exn + bool \<times> 'a store" where
  "load_index persisted s = load persisted s"

text \<open>
  Modelled from the spec: the capabilities the engine consumes (sections 4.1 and 4.4): the
  Embedding Provider (an image is named by its path), the similarity search of the store,
  the deduplication and context assembly of the orchestrator, whose policies the spec
  leaves open, and the generation capability (prompt, context, query image).
\<close>

record 'a backends =
  embedding_dimension :: nat
  embed_text :: "string \<Rightarrow> exn + 'a list"
  embed_image :: "string \<Rightarrow> exn + 'a list"
  search :: "'a store \<Rightarrow> 'a list \<Rightarrow> int \<Rightarrow> source_record list"
  dedupe :: "source_record list \<Rightarrow> source_record list"
  assemble :: "source_record list \<Rightarrow> string"
  generate :: "string \<Rightarrow> string \<Rightarrow> string option \<Rightarrow> exn + string"

text \<open>A call that reaches the embedding or the generation backend.\<close>

datatype backend_call =
    EmbedText string | EmbedImage string | Generate string string "string option"

text \<open>
  Modelled from the spec: steps 3 to 7 of \<^verbatim>\<open>query\<close> in \<^verbatim>\<open>src/rag.py\<close> (section 4.4), once
  the query embedding has been asked for (\<open>ecall\<close> is that call, \<open>emb\<close> its outcome):
  search, deduplicate, assemble the context, generate with the question or the default
  prompt. A failure of any step fails the whole query.
\<close>

definition retrieve_generate ::
  "'a backends \<Rightarrow> 'a store \<Rightarrow> backend_call \<Rightarrow> exn + 'a list \<Rightarrow> string option \<Rightarrow> string option \<Rightarrow> int
     \<Rightarrow> (exn + string \<times> source_record list) \<times> backend_call list" where
  "retrieve_generate B s ecall emb question query_image top_k =
     (case emb of
        Inl e \<Rightarrow> (Inl e, [ecall])
      | Inr v \<Rightarrow>
          (let found = dedupe B (search B s v top_k);
               context = assemble B found;
               prompt = or_else question default_prompt
           in (case generate B prompt context query_image of
                 Inl e \<Rightarrow> (Inl e, [ecall, Generate prompt context query_image])
               | Inr answer \<Rightarrow> (Inr (answer, found), [ecall, Generate prompt context query_image]))))"

text \<open>
  Modelled from the spec: \<^verbatim>\<open>query(question, query_image, top_k)\<close> of \<^verbatim>\<open>src/rag.py\<close>, steps 1
  and 2 of section 4.4: with neither input the query fails with \<open>EmptyQuery\<close>; with an
  image the image is embedded (also when a question is present); with a question alone
  the question is embedded. The result comes with the backend calls made, in order.
\<close>

definition query ::
  "'a backends \<Rightarrow> 'a store \<Rightarrow> string option \<Rightarrow> string option \<Rightarrow> int
     \<Rightarrow> (exn + string \<times> source_record list) \<times> backend_call list" where
  "query B s question query_image top_k =
     (case query_image of
        Some img \<Rightarrow> retrieve_generate B s (EmbedImage img) (embed_image B img) question query_image top_k
      | None \<Rightarrow>
          (case question of
             None \<Rightarrow> (Inl (Exn EmptyQuery ''EmptyQuery''), [])
           | Some q \<Rightarrow> retrieve_generate B s (EmbedText q) (embed_text B q) question query_image top_k))"




text \<open>
  Modelled from the spec: what the Ingestion Pipeline of \<^verbatim>\<open>src/ingest.py\<close> reads (section
  4.3): the files of a directory, and the overlapping chunks of a document's text
  (\<open>None\<close> for a file that cannot be read).
\<close>

record ingest_env =
  list_dir :: "string \<Rightarrow> string list"
  read_chunks :: "string \<Rightarrow> string list option"

text \<open>
  Modelled from the spec: \<^verbatim>\<open>ingest_documents\<close> and \<^verbatim>\<open>ingest_images\<close> of \<^verbatim>\<open>src/ingest.py\<close>.
  Every chunk (every image) is embedded and added to the store it was given, with a
  record naming its file; the count is the number of items added. An item the provider
  cannot embed (\<open>EmbeddingFailure\<close>) and a file that cannot be read are skipped; any other
  failure ends the run with that exception. The sources are the paths when paths are
  given, and the files of the directory otherwise.
\<close>

definition sources_of :: "ingest_env \<Rightarrow> string list option \<Rightarrow> string option \<Rightarrow> string list" where
  "sources_of env paths directory =
     (case paths of
        Some ps \<Rightarrow> ps
      | None \<Rightarrow> (case directory of Some d \<Rightarrow> list_dir env d | None \<Rightarrow> []))"

definition ingest_item ::
  "exn + 'a list \<Rightarrow> source_record \<Rightarrow> nat \<times> 'a store \<Rightarrow> exn + nat \<times> 'a store" where
  "ingest_item emb r st =
     (case emb of
        Inl e \<Rightarrow> (if kind e = EmbeddingFailure then Inr st else Inl e)
      | Inr v \<Rightarrow>
          (case add (snd st) v (r\<lparr>rec_id := count (snd st)\<rparr>) of
             Inl e \<Rightarrow> Inl e
           | Inr s' \<Rightarrow> Inr (Suc (fst st), s')))"

fun ingest_chunks ::
  "'a backends \<Rightarrow> string \<Rightarrow> nat \<Rightarrow> string list \<Rightarrow> nat \<times> 'a store \<Rightarrow> exn + nat \<times> 'a store" where
  "ingest_chunks B file i [] st = Inr st"
| "ingest_chunks B file i (c # cs) st =
     (case ingest_item (embed_text B c)
             \<lparr>rec_id = 0, rec_type = TextRecord, rec_source = file, rec_content = c,
              chunk_index = Some i, page = None\<rparr> st of
        Inl e \<Rightarrow> Inl e
      | Inr st' \<Rightarrow> ingest_chunks B file (Suc i) cs st')"

fun ingest_files ::
  "'a backends \<Rightarrow> ingest_env \<Rightarrow> string list \<Rightarrow> nat \<times> 'a store \<Rightarrow> exn + nat \<times> 'a store" where
  "ingest_files B env [] st = Inr st"
| "ingest_files B env (f # fs) st =
     (case read_chunks env f of
        None \<Rightarrow> ingest_files B env fs st
      | Some cs \<Rightarrow>
          (case ingest_chunks B f 0 cs st of
             Inl e \<Rightarrow> Inl e
           | Inr st' \<Rightarrow> ingest_files B env fs st'))"

definition ingest_documents ::
  "'a backends \<Rightarrow> ingest_env \<Rightarrow> string list option \<Rightarrow> string option \<Rightarrow> 'a store \<Rightarrow> exn + nat \<times> 'a store" where
  "ingest_documents B env paths directory s =
     ingest_files B env (sources_of env paths directory) (0, s)"

fun ingest_image_files ::
  "'a backends \<Rightarrow> string list \<Rightarrow> nat \<times> 'a store \<Rightarrow> exn + nat \<times> 'a store" where
  "ingest_image_files B [] st = Inr st"
| "ingest_image_files B (f # fs) st =
     (case ingest_item (embed_image B f)
             \<lparr>rec_id = 0, rec_type = ImageRecord, rec_source = f, rec_content = [],
              chunk_index = None, page = None\<rparr> st of
        Inl e \<Rightarrow> Inl e
      | Inr st' \<Rightarrow> ingest_image_files B fs st')"

definition ingest_images ::
  "'a backends \<Rightarrow> ingest_env \<Rightarrow> string list option \<Rightarrow> string option \<Rightarrow> 'a store \<Rightarrow> exn + nat \<times> 'a store" where
  "ingest_images B env paths directory s =
     ingest_image_files B (sources_of env paths directory) (0, s)"

section \<open>The ingest command (main.py)\<close>

text \<open>
  The namespace argparse builds for the \<^verbatim>\<open>ingest\<close> subcommand: \<^verbatim>\<open>--all\<close> is a flag,
  \<^verbatim>\<open>--documents\<close> and \<^verbatim>\<open>--images\<close> are \<^verbatim>\<open>None\<close> when absent and a list (maybe empty)
  when present.
\<close>

record ingest_args =
  arg_all :: bool
  arg_documents :: "string list option"
  arg_images :: "string list option"

text \<open>Python truthiness of an optional list: \<^verbatim>\<open>None\<close> and \<^verbatim>\<open>[]\<close> are false.\<close>

fun truthy_list :: "string list option \<Rightarrow> bool" where
  "truthy_list None = False"
| "truthy_list (Some ps) = (ps \<noteq> [])"

text \<open>
  What \<^verbatim>\<open>cmd_ingest\<close> imports and calls, as parameters: the provider's dimension, the
  store's constructor, its \<^verbatim>\<open>load()\<close> (raising, or telling whether an index was found,
  with the store afterwards) and its \<^verbatim>\<open>count\<close>, the two ingestion functions (given the
  paths, the directory and the store; raising, or returning the count with the store
  afterwards) and the two default directories of \<^verbatim>\<open>src/config.py\<close>.
\<close>

record 'st ingest_deps =
  provider_dimension :: nat
  make_store :: "nat \<Rightarrow> 'st"
  store_load :: "'st \<Rightarrow> exn + bool \<times> 'st"
  store_count :: "'st \<Rightarrow> nat"
  ingest_documents_impl :: "string list option \<Rightarrow> string option \<Rightarrow> 'st \<Rightarrow> exn + nat \<times> 'st"
  ingest_images_impl :: "string list option \<Rightarrow> string option \<Rightarrow> 'st \<Rightarrow> exn + nat \<times> 'st"
  documents_dir :: string
  images_dir :: string

text \<open>
  Lines 19-38, the two ingestion steps of \<^verbatim>\<open>cmd_ingest\<close> on the store \<open>s\<close>. Documents are
  ingested when \<^verbatim>\<open>--documents\<close> names some or \<^verbatim>\<open>--all\<close> is given, with \<^verbatim>\<open>paths or None\<close>
  as paths; images when \<^verbatim>\<open>--images\<close> names some or \<^verbatim>\<open>--all\<close> is given, with \<^verbatim>\<open>None\<close> as
  paths unless some are given; the directory is the default one under \<^verbatim>\<open>--all\<close>. A
  step that is not taken leaves its count at 0 and the store as it is.
\<close>

definition documents_step :: "'st ingest_deps \<Rightarrow> ingest_args \<Rightarrow> 'st \<Rightarrow> exn + nat \<times> 'st" where
  "documents_step D args s =
     (if truthy_list (arg_documents args) \<or> arg_all args then
        ingest_documents_impl D
          (if truthy_list (arg_documents args) then arg_documents args else None)
          (if arg_all args then Some (documents_dir D) else None) s
      else Inr (0, s))"

definition images_step :: "'st ingest_deps \<Rightarrow> ingest_args \<Rightarrow> 'st \<Rightarrow> exn + nat \<times> 'st" where
  "images_step D args s =
     (if truthy_list (arg_images args) \<or> arg_all args then
        ingest_images_impl D
          (if truthy_list (arg_images args) then arg_images args else None)
          (if arg_all args then Some (images_dir D) else None) s
      else Inr (0, s))"

text \<open>
  Lines 13-41. A store of the provider's dimension is created and \<^verbatim>\<open>vector_store.load()\<close>
  is called on it (its boolean is dropped); the same store then goes through the two
  ingestion steps, and the two counts and the store's count are printed. There is no
  \<^verbatim>\<open>try\<close>: \<open>Inl\<close> is an exception that leaves the command, \<open>Inr\<close> the lines printed and
  the store at the end.
\<close>

definition cmd_ingest :: "'st ingest_deps \<Rightarrow> ingest_args \<Rightarrow> exn + string list \<times> 'st" where
  "cmd_ingest D args =
     (case store_load D (make_store D (provider_dimension D)) of
        Inl e \<Rightarrow> Inl e
      | Inr (found, s0) \<Rightarrow>
          (case documents_step D args s0 of
             Inl e \<Rightarrow> Inl e
           | Inr (doc_count, s1) \<Rightarrow>
               (case images_step D args s1 of
                  Inl e \<Rightarrow> Inl e
                | Inr (img_count, s2) \<Rightarrow>
                    Inr ([''Ingested: '' @ str_nat doc_count @ '' text chunks, '' @ str_nat img_count @ '' images.'',
                          ''Total vectors: '' @ str_nat (store_count D s2)], s2))))"

text \<open>
  Modelled from the spec: the engine of sections 4.2 and 4.3 in the place of those
  parameters, over the saved index \<open>persisted\<close>.
\<close>

definition engine ::
  "'a backends \<Rightarrow> ingest_env \<Rightarrow> 'a store option \<Rightarrow> string \<Rightarrow> string \<Rightarrow> 'a store ingest_deps" where
  "engine B env persisted ddir idir =
     \<lparr>provider_dimension = embedding_dimension B,
      make_store = new_store,
      store_load = load persisted,
      store_count = count,
      ingest_documents_impl = ingest_documents B env,
      ingest_images_impl = ingest_images B env,
      documents_dir = ddir,
      images_dir = idir\<rparr>"

section \<open>The argument parser and dispatch (main.py)\<close>

text \<open>
  What Python's \<^verbatim>\<open>int(s)\<close> reads, as far as it is modelled: an optional sign and one or
  more ASCII digits (\<^verbatim>\<open>int\<close> also accepts surrounding blanks and underscores between
  digits; such strings are rejected here).
\<close>

definition digit_value :: "char \<Rightarrow> nat option" where
  "digit_value c =
     (if 48 \<le> (of_char c :: nat) \<and> (of_char c :: nat) \<le> 57 then Some (of_char c - 48) else None)"

fun parse_digits :: "nat \<Rightarrow> string \<Rightarrow> nat option" where
  "parse_digits acc [] = Some acc"
| "parse_digits acc (c # cs) =
     (case digit_value c of None \<Rightarrow> None | Some d \<Rightarrow> parse_digits (10 * acc + d) cs)"

definition parse_nat :: "string \<Rightarrow> nat option" where
  "parse_nat s = (if s = [] then None else parse_digits 0 s)"

definition parse_int :: "string \<Rightarrow> int option" where
  "parse_int s =
     (case s of
        [] \<Rightarrow> None
      | c # ds \<Rightarrow>
          (if c = CHR ''-'' then map_option (\<lambda>n. - int n) (parse_nat ds)
           else if c = CHR ''+'' then map_option int (parse_nat ds)
           else map_option int (parse_nat s)))"

text \<open>
  The namespaces of the three subcommands, tagged with the function that
  \<^verbatim>\<open>set_defaults(func=...)\<close> attaches to each: what \<^verbatim>\<open>args.func(args)\<close> will run.
\<close>

record app_args =
  arg_port :: int

datatype invocation = RunIngest ingest_args | RunQuery query_args | RunApp app_args

text \<open>argparse ends the process with a usage message (exit status 2).\<close>

datatype usage_error = UsageError

text \<open>
  A command-line word that argparse takes as an argument value rather than as an option:
  one that does not start with \<^verbatim>\<open>-\<close>.
\<close>

fun plain :: "string \<Rightarrow> bool" where
  "plain [] = True"
| "plain (c # cs) = (c \<noteq> CHR ''-'')"

text \<open>
  Lines 81-85, the \<^verbatim>\<open>ingest\<close> subparser: \<^verbatim>\<open>--all\<close> (\<^verbatim>\<open>store_true\<close>), \<^verbatim>\<open>--documents\<close> and
  \<^verbatim>\<open>--images\<close> (\<^verbatim>\<open>nargs="*"\<close>: all the plain words that follow, a later occurrence
  replacing an earlier one). There is no positional argument, so any other word is an
  error. Of argparse's behaviour the model covers the option strings written in full
  with their values as separate words; abbreviated options, \<^verbatim>\<open>--opt=value\<close>,
  \<^verbatim>\<open>--\<close>, \<^verbatim>\<open>-h\<close> and values that start with \<^verbatim>\<open>-\<close> are rejected here.
\<close>

function parse_ingest :: "ingest_args \<Rightarrow> string list \<Rightarrow> usage_error + ingest_args" where
  "parse_ingest a [] = Inr a"
| "parse_ingest a (t # ts) =
     (if t = ''--all'' then parse_ingest (a\<lparr>arg_all := True\<rparr>) ts
      else if t = ''--documents'' then
        parse_ingest (a\<lparr>arg_documents := Some (takeWhile plain ts)\<rparr>) (dropWhile plain ts)
      else if t = ''--images'' then
        parse_ingest (a\<lparr>arg_images := Some (takeWhile plain ts)\<rparr>) (dropWhile plain ts)
      else Inl UsageError)"
  by pat_completeness auto
termination
  by (relation "measure (\<lambda>(a, ts). length ts)") (auto simp: le_imp_less_Suc length_dropWhile_le)

text \<open>
  Lines 88-92, the \<^verbatim>\<open>query\<close> subparser: the optional positional \<^verbatim>\<open>question\<close>
  (\<^verbatim>\<open>nargs="?"\<close>), \<^verbatim>\<open>--image\<close> and \<^verbatim>\<open>--top-k\<close> (\<^verbatim>\<open>type=int\<close>, default 5). The model
  reads the question as the first word when that word is plain, then the options, each
  with one plain value; a plain word after an option is rejected.
\<close>

fun parse_query_options :: "query_args \<Rightarrow> string list \<Rightarrow> usage_error + query_args" where
  "parse_query_options a [] = Inr a"
| "parse_query_options a [t] = Inl UsageError"
| "parse_query_options a (t # v # ts) =
     (if t = ''--image'' \<and> plain v then parse_query_options (a\<lparr>arg_image := Some v\<rparr>) ts
      else if t = ''--top-k'' \<and> plain v then
        (case parse_int v of
           None \<Rightarrow> Inl UsageError
         | Some k \<Rightarrow> parse_query_options (a\<lparr>arg_top_k := k\<rparr>) ts)
      else Inl UsageError)"

definition parse_query :: "string list \<Rightarrow> usage_error + query_args" where
  "parse_query ts =
     (case ts of
        [] \<Rightarrow> Inr \<lparr>arg_question = None, arg_image = None, arg_top_k = 5\<rparr>
      | t # rest \<Rightarrow>
          (if plain t then
             parse_query_options \<lparr>arg_question = Some t, arg_image = None, arg_top_k = 5\<rparr> rest
           else parse_query_options \<lparr>arg_question = None, arg_image = None, arg_top_k = 5\<rparr> ts))"

text \<open>Lines 95-97, the \<^verbatim>\<open>app\<close> subparser: \<^verbatim>\<open>--port\<close> (\<^verbatim>\<open>type=int\<close>, default 8501).\<close>

fun parse_app :: "app_args \<Rightarrow> string list \<Rightarrow> usage_error + app_args" where
  "parse_app a [] = Inr a"
| "parse_app a [t] = Inl UsageError"
| "parse_app a (t # v # ts) =
     (if t = ''--port'' \<and> plain v then
        (case parse_int v of
           None \<Rightarrow> Inl UsageError
         | Some k \<Rightarrow> parse_app (a\<lparr>arg_port := k\<rparr>) ts)
      else Inl UsageError)"

text \<open>
  Lines 77-99: the subcommand is required and is one of \<^verbatim>\<open>ingest\<close>, \<^verbatim>\<open>query\<close>, \<^verbatim>\<open>app\<close>;
  the rest of the command line goes to its subparser.
\<close>

definition parse_args :: "string list \<Rightarrow> usage_error + invocation" where
  "parse_args argv =
     (case argv of
        [] \<Rightarrow> Inl UsageError
      | command # rest \<Rightarrow>
          (if command = ''ingest'' then
             map_sum id RunIngest
               (parse_ingest \<lparr>arg_all = False, arg_documents = None, arg_images = None\<rparr> rest)
           else if command = ''query'' then map_sum id RunQuery (parse_query rest)
           else if command = ''app'' then map_sum id RunApp (parse_app \<lparr>arg_port = 8501\<rparr> rest)
           else Inl UsageError))"

text \<open>
  Lines 65-73: \<^verbatim>\<open>cmd_app\<close> runs one subprocess; this is its argument vector, with
  \<^verbatim>\<open>sys.executable\<close> as \<open>executable\<close>.
\<close>

definition cmd_app :: "string \<Rightarrow> app_args \<Rightarrow> string list" where
  "cmd_app executable args =
     [executable, ''-m'', ''streamlit'', ''run'', ''app.py'',
      ''--server.port'', str_int (arg_port args), ''--server.headless'', ''true'']"

text \<open>
  Lines 99-100: \<^verbatim>\<open>main\<close> parses the command line and calls the function attached to the
  subcommand. The result says which command ran and what it did.
\<close>

datatype 'a run =
    UsageExit
  | IngestRun "exn + string list \<times> 'a"
  | QueryRun "string list \<times> query_call list \<times> outcome \<times> fs"
  | AppRun "string list"

definition main ::
  "'st ingest_deps \<Rightarrow> bool \<Rightarrow> query_fn \<Rightarrow> string \<Rightarrow> fs \<Rightarrow> string list \<Rightarrow> 'st run" where
  "main D loaded query_impl executable files argv =
     (case parse_args argv of
        Inl u \<Rightarrow> UsageExit
      | Inr (RunIngest a) \<Rightarrow> IngestRun (cmd_ingest D a)
      | Inr (RunQuery a) \<Rightarrow> QueryRun (cmd_query loaded query_impl a files)
      | Inr (RunApp a) \<Rightarrow> AppRun (cmd_app executable a))"


section \<open>Sample inputs\<close>

text \<open>
  Concrete values on which the theorems below are run: a retrieved source, a
  \<^verbatim>\<open>rag.query\<close> that answers, one that answers after writing to the file system (also
  over \<^verbatim>\<open>tmp_query.png\<close>), and one that raises.
\<close>

definition sample_doc :: doc where
  "sample_doc = [''type'' \<mapsto> ''image'', ''source'' \<mapsto> ''a.png'', ''content'' \<mapsto> ''a red square'']"

definition answering :: query_fn where
  "answering files c = (Inr (''an answer'', [sample_doc, Map.empty]), files)"

definition littering :: query_fn where
  "littering files c =
     (Inr (''an answer'', [sample_doc]), files(''cache.bin'' \<mapsto> ''x'', tmp \<mapsto> ''rewritten''))"

definition failing :: "exn \<Rightarrow> query_fn" where
  "failing e files c = (Inl e, files)"

definition backend_down :: exn where
  "backend_down = Exn EmbeddingFailure ''embedding backend unreachable''"

text \<open>
  An engine to run the modelled components on: a provider of dimension 2, a search that
  returns the first \<open>k\<close> records, a saved index of one image, and two readable documents.
\<close>

definition sample_backends :: "nat backends" where
  "sample_backends =
     \<lparr>embedding_dimension = 2,
      embed_text = (\<lambda>t. Inr [1, 2]),
      embed_image = (\<lambda>p. Inr [3, 4]),
      search = (\<lambda>s v k. take (nat k) (records s)),
      dedupe = (\<lambda>rs. rs),
      assemble = (\<lambda>rs. concat (map rec_content rs)),
      generate = (\<lambda>p c i. Inr (''answer to: '' @ p))\<rparr>"

definition sample_record :: source_record where
  "sample_record =
     \<lparr>rec_id = 0, rec_type = ImageRecord, rec_source = ''red.png'', rec_content = ''a red square'',
      chunk_index = None, page = None\<rparr>"

definition sample_store :: "nat store" where
  "sample_store = \<lparr>dimension = 2, vectors = [[3, 4]], records = [sample_record]\<rparr>"

definition sample_env :: ingest_env where
  "sample_env =
     \<lparr>list_dir = (\<lambda>d. []),
      read_chunks = (\<lambda>f. if f = ''sky.txt'' then Some [''The sky is blue.'', ''Grass is green.'']
                         else None)\<rparr>"

text \<open>
  The saved index above after the two chunks of \<^verbatim>\<open>sky.txt\<close> and the image \<^verbatim>\<open>red2.png\<close> have
  been ingested into it.
\<close>

definition sample_store_after :: "nat store" where
  "sample_store_after =
     \<lparr>dimension = 2,
      vectors = [[3, 4], [1, 2], [1, 2], [3, 4]],
      records =
        [sample_record,
         \<lparr>rec_id = 1, rec_type = TextRecord, rec_source = ''sky.txt'', rec_content = ''The sky is blue.'',
          chunk_index = Some 0, page = None\<rparr>,
         \<lparr>rec_id = 2, rec_type = TextRecord, rec_source = ''sky.txt'', rec_content = ''Grass is green.'',
          chunk_index = Some 1, page = None\<rparr>,
         \<lparr>rec_id = 3, rec_type = ImageRecord, rec_source = ''red2.png'', rec_content = [],
          chunk_index = None, page = None\<rparr>]\<rparr>"

text \<open>
  Operations for \<^verbatim>\<open>cmd_ingest\<close> over a store that is only its count: three vectors are
  found saved, documents add two, and the image ingestion raises.
\<close>

definition sample_deps :: "nat ingest_deps" where
  "sample_deps =
     \<lparr>provider_dimension = 2,
      make_store = (\<lambda>d. 0),
      store_load = (\<lambda>s. Inr (True, 3)),
      store_count = (\<lambda>s. s),
      ingest_documents_impl = (\<lambda>paths directory s. Inr (2, s + 2)),
      ingest_images_impl = (\<lambda>paths directory s. Inl backend_down),
      documents_dir = ''data/documents'',
      images_dir = ''data/images''\<rparr>"


section \<open>Properties: decimal numbers and the numbered source lists\<close>

lemma concat_pairs_nth:
  "k < length xs \<Longrightarrow> concat (map (\<lambda>x. [f x, g x]) xs) ! (2 * k) = f (xs ! k)"
proof (induction xs arbitrary: k)
  case Nil
  then show ?case by simp
next
  case (Cons x xs)
  show ?case
  proof (cases k)
    case 0
    then show ?thesis by simp
  next
    case (Suc j)
    with Cons.prems have "j < length xs" by simp
    from Cons.IH [OF this] Suc show ?thesis by simp
  qed
qed

lemma show_sources_nth:
  "k < length docs \<Longrightarrow>
     show_sources docs ! k = Expander (expander_label (Suc k) (docs ! k)) (get (docs ! k) ''content'' '''')"
  by (simp add: show_sources_def nth_enumerate_eq)

lemma print_sources_nth:
  "k < length docs \<Longrightarrow> print_sources docs ! (2 * k) = source_line (Suc k) (docs ! k)"
proof -
  assume k: "k < length docs"
  have "print_sources docs
        = concat (map (\<lambda>p. [source_line (fst p) (snd p), content_line (snd p)]) (List.enumerate 1 docs))"
    by (simp add: print_sources_def case_prod_unfold)
  then show ?thesis using k
    by (simp add: concat_pairs_nth nth_enumerate_eq)
qed

lemma digit_value_digit: "d < 10 \<Longrightarrow> digit_value (digit d) = Some d"
proof -
  assume "d < 10"
  then have "d \<in> {0, 1, 2, 3, 4, 5, 6, 7, 8, 9}" by auto
  then show ?thesis
    by (auto simp: digit_def digit_value_def)
qed

lemma parse_digits_append:
  "parse_digits acc (xs @ ys) =
     (case parse_digits acc xs of None \<Rightarrow> None | Some n \<Rightarrow> parse_digits n ys)"
  by (induction xs arbitrary: acc) (auto split: option.splits)

lemma parse_digits_str_nat: "parse_digits 0 (str_nat n) = Some n"
proof (induction n rule: str_nat.induct)
  case (1 n)
  show ?case
  proof (cases "n < 10")
    case True
    then show ?thesis
      by (subst str_nat.simps) (simp add: digit_value_digit)
  next
    case False
    with 1 have ih: "parse_digits 0 (str_nat (n div 10)) = Some (n div 10)" by simp
    have "n mod 10 < 10" by simp
    then have dv: "digit_value (digit (n mod 10)) = Some (n mod 10)" by (rule digit_value_digit)
    from False have "str_nat n = str_nat (n div 10) @ [digit (n mod 10)]"
      by (subst str_nat.simps) simp
    then show ?thesis
      by (simp add: parse_digits_append ih dv)
  qed
qed

lemma str_nat_not_Nil: "str_nat n \<noteq> []"
  by (subst str_nat.simps) simp

lemma parse_nat_str_nat: "parse_nat (str_nat n) = Some n"
  by (simp add: parse_nat_def str_nat_not_Nil parse_digits_str_nat)

lemma str_nat_inj: "str_nat a = str_nat b \<Longrightarrow> a = b"
proof -
  assume "str_nat a = str_nat b"
  then have "parse_nat (str_nat a) = parse_nat (str_nat b)" by simp
  then show "a = b" by (simp add: parse_nat_str_nat)
qed

text \<open>
  Claim C10. In the results display of the interactive surface the retrieved source at
  1-based position \<open>i\<close> gets the label number \<open>i + 1\<close> (the expander label is built from
  \<^verbatim>\<open>i+1\<close>, so the first label is 2), while the command surface prints the source at
  position \<open>i\<close> with the number \<open>i\<close>; the two numbers are different strings.
\<close>

theorem source_labels:
  "1 \<le> i \<and> i \<le> length docs \<Longrightarrow>
     show_sources docs ! (i - 1) =
       Expander (''**'' @ str_nat (i + 1) @ ''. ['' @ get (docs ! (i - 1)) ''type'' ''text'' @ '']** ''
                   @ get (docs ! (i - 1)) ''source'' ''N/A'')
                (get (docs ! (i - 1)) ''content'' '''')
     \<and> print_sources docs ! (2 * (i - 1)) =
         [CHR 0x0A] @ str_nat i @ ''. ['' @ get (docs ! (i - 1)) ''type'' ''None'' @ ''] ''
           @ get (docs ! (i - 1)) ''source'' ''N/A''
     \<and> str_nat (i + 1) \<noteq> str_nat i"
proof -
  assume i: "1 \<le> i \<and> i \<le> length docs"
  then have k: "i - 1 < length docs" and s: "Suc (i - 1) = i" by auto
  have "str_nat (i + 1) \<noteq> str_nat i"
    using str_nat_inj [of "i + 1" i] by auto
  then show ?thesis
    using show_sources_nth [OF k] print_sources_nth [OF k] s
    by (simp add: expander_label_def source_line_def)
qed

theorem source_labels_witness:
  "show_sources [sample_doc, Map.empty] ! 0 = Expander ''**2. [image]** a.png'' ''a red square''
   \<and> show_sources [sample_doc, Map.empty] ! 1 = Expander ''**3. [text]** N/A'' ''''
   \<and> print_sources [sample_doc, Map.empty] ! 0 = [CHR 0x0A] @ ''1. [image] a.png''
   \<and> print_sources [sample_doc, Map.empty] ! 2 = [CHR 0x0A] @ ''2. [None] N/A''"
  using source_labels [of 1 "[sample_doc, Map.empty]"] source_labels [of 2 "[sample_doc, Map.empty]"]
  by (simp add: sample_doc_def get_def str_nat.simps digit_def)

section \<open>Properties: what the two surfaces do on one run\<close>

lemma tab1_idle: "\<not> search_pressed inp \<Longrightarrow> tab1 loaded qf inp files = (index_warning loaded, [], files)"
  by (simp add: tab1_def)

lemma tab1_refuses:
  "search_pressed inp \<Longrightarrow> text_question inp = [] \<Longrightarrow>
   radio_query_type inp = Text \<or> file_upload inp = None \<Longrightarrow>
   tab1 loaded qf inp files =
     (index_warning loaded @ [Error ''Provide a text question or an image.''], [], files)"
  by (auto simp: tab1_def split: query_type.splits)

lemma tab1_image:
  "search_pressed inp \<Longrightarrow> radio_query_type inp = Image \<Longrightarrow> file_upload inp = Some bytes \<Longrightarrow>
   tab1 loaded qf inp files =
     (index_warning loaded @
        (case fst (qf (files(tmp \<mapsto> bytes))
                 \<lparr>call_question = or_else (Some (text_question inp)) default_prompt,
                  call_image = Some tmp, call_top_k = None\<rparr>) of
           Inl e \<Rightarrow> [Error (message e)]
         | Inr (answer, docs) \<Rightarrow> show_result answer docs),
      [\<lparr>call_question = or_else (Some (text_question inp)) default_prompt,
        call_image = Some tmp, call_top_k = None\<rparr>],
      (snd (qf (files(tmp \<mapsto> bytes))
              \<lparr>call_question = or_else (Some (text_question inp)) default_prompt,
               call_image = Some tmp, call_top_k = None\<rparr>))(tmp := None))"
  by (simp add: tab1_def query_block_def Let_def split: prod.splits sum.splits)

lemma tab1_text:
  "search_pressed inp \<Longrightarrow> text_question inp \<noteq> [] \<Longrightarrow>
   radio_query_type inp = Text \<or> file_upload inp = None \<Longrightarrow>
   tab1 loaded qf inp files =
     (index_warning loaded @
        (case fst (qf files \<lparr>call_question = text_question inp, call_image = None, call_top_k = None\<rparr>) of
           Inl e \<Rightarrow> [Error (message e)]
         | Inr (answer, docs) \<Rightarrow> show_result answer docs),
      [\<lparr>call_question = text_question inp, call_image = None, call_top_k = None\<rparr>],
      snd (qf files \<lparr>call_question = text_question inp, call_image = None, call_top_k = None\<rparr>))"
  by (auto simp: tab1_def query_block_def Let_def split: prod.splits sum.splits query_type.splits)

lemma cmd_query_loaded:
  "cmd_query True qf args files =
     (case fst (qf files \<lparr>call_question = or_else (arg_question args) default_prompt,
                          call_image = (if truthy (arg_image args) then arg_image args else None),
                          call_top_k = Some (arg_top_k args)\<rparr>) of
        Inl e \<Rightarrow> [''Retrieving and generating...'']
      | Inr (answer, docs) \<Rightarrow>
          [''Retrieving and generating...'', [CHR 0x0A] @ ''--- Answer ---'', answer,
           [CHR 0x0A] @ ''--- Retrieved Sources ---''] @ print_sources docs,
      [\<lparr>call_question = or_else (arg_question args) default_prompt,
        call_image = (if truthy (arg_image args) then arg_image args else None),
        call_top_k = Some (arg_top_k args)\<rparr>],
      (case fst (qf files \<lparr>call_question = or_else (arg_question args) default_prompt,
                          call_image = (if truthy (arg_image args) then arg_image args else None),
                          call_top_k = Some (arg_top_k args)\<rparr>) of
        Inl e \<Rightarrow> Uncaught e | Inr r \<Rightarrow> Returned),
      snd (qf files \<lparr>call_question = or_else (arg_question args) default_prompt,
                          call_image = (if truthy (arg_image args) then arg_image args else None),
                          call_top_k = Some (arg_top_k args)\<rparr>))"
  by (simp add: cmd_query_def Let_def split: prod.splits sum.splits)

lemma cmd_query_not_loaded: "cmd_query False qf args files = ([no_index_message], [], Returned, files)"
  by (simp add: cmd_query_def)

lemma or_else_not_Nil: "d \<noteq> [] \<Longrightarrow> or_else x d \<noteq> []"
  by (cases x) auto

lemma default_prompt_not_Nil: "default_prompt \<noteq> []"
  by (simp add: default_prompt_def)

lemma tab1_cases:
  "\<not> search_pressed inp
   \<or> (search_pressed inp \<and> text_question inp = [] \<and> (radio_query_type inp = Text \<or> file_upload inp = None))
   \<or> (search_pressed inp \<and> radio_query_type inp = Image \<and> (\<exists>bytes. file_upload inp = Some bytes))
   \<or> (search_pressed inp \<and> text_question inp \<noteq> [] \<and> (radio_query_type inp = Text \<or> file_upload inp = None))"
  by (cases "radio_query_type inp"; cases "file_upload inp") auto

lemma tab1_calls:
  assumes c: "c \<in> set (fst (snd (tab1 loaded qf inp files)))"
  shows "call_question c = or_else (Some (text_question inp)) default_prompt \<and> call_question c \<noteq> []"
proof -
  consider (idle) "\<not> search_pressed inp"
    | (empty) "search_pressed inp" "text_question inp = []"
        "radio_query_type inp = Text \<or> file_upload inp = None"
    | (image) bytes where "search_pressed inp" "radio_query_type inp = Image" "file_upload inp = Some bytes"
    | (typed) "search_pressed inp" "text_question inp \<noteq> []"
        "radio_query_type inp = Text \<or> file_upload inp = None"
    using tab1_cases [of inp] by (elim disjE conjE exE) auto
  then show ?thesis
  proof cases
    case idle
    with c show ?thesis by (simp add: tab1_idle)
  next
    case empty
    with c show ?thesis by (simp add: tab1_refuses)
  next
    case image
    with c show ?thesis by (simp add: tab1_image default_prompt_not_Nil)
  next
    case typed
    with c show ?thesis by (simp add: tab1_text)
  qed
qed

lemma cmd_query_calls:
  "c \<in> set (fst (snd (cmd_query loaded qf args files))) \<Longrightarrow>
     call_question c = or_else (arg_question args) default_prompt \<and> call_question c \<noteq> []"
  by (cases loaded) (auto simp: cmd_query_loaded cmd_query_not_loaded or_else_not_Nil default_prompt_not_Nil)

section \<open>Properties: refusing, warning and reporting\<close>

lemma load_index_none: "load_index None s = Inr (False, s)"
  by (simp add: load_index_def load_def)


lemma query_image_trace:
  "snd (query B s question (Some img) k) =
     (case embed_image B img of
        Inl e \<Rightarrow> [EmbedImage img]
      | Inr v \<Rightarrow> [EmbedImage img,
                  Generate (or_else question default_prompt)
                    (assemble B (dedupe B (search B s v k))) (Some img)])"
  by (simp add: query_def retrieve_generate_def Let_def split: sum.splits)


lemma query_image_result:
  "embed_image B img = Inr v \<Longrightarrow>
   generate B (or_else question default_prompt) (assemble B (dedupe B (search B s v k))) (Some img) = Inr answer \<Longrightarrow>
   fst (query B s question (Some img) k) = Inr (answer, dedupe B (search B s v k))"
  by (simp add: query_def retrieve_generate_def Let_def)

lemma generate_prompt:
  "Generate p ctx img \<in> set (snd (query B s question query_image k)) \<Longrightarrow>
     p = or_else question default_prompt \<and> p \<noteq> []"
  by (cases query_image; cases question)
     (auto simp: query_def retrieve_generate_def Let_def default_prompt_not_Nil or_else_not_Nil
           split: sum.splits if_splits)




text \<open>
  When \<^verbatim>\<open>load_index()\<close> has returned false, the Query tab of the interactive surface still
  calls \<^verbatim>\<open>rag.query\<close> for a typed question: lines 54-55 only show a warning.
\<close>

theorem load_false_not_refused_counterexample:
  "fst (snd (tab1 False answering
      \<lparr>radio_query_type = Text, text_question = ''What is AWS Bedrock?'', file_upload = None,
       search_pressed = True\<rparr> Map.empty))
   = [\<lparr>call_question = ''What is AWS Bedrock?'', call_image = None, call_top_k = None\<rparr>]"
  by (simp add: tab1_text)

text \<open>
  Claim C2, as amended. When \<^verbatim>\<open>load_index()\<close> returns false, the command surface prints
  "Error: No index found. Run 'ingest' first." and returns without calling \<^verbatim>\<open>rag.query\<close>.
  The interactive surface shows the warning that tells the user to ingest first, and
  apart from that warning does exactly what it does when an index was loaded: the same
  display, the same calls of \<^verbatim>\<open>rag.query\<close>, the same file system.
\<close>

theorem load_index_false_handling:
  "cmd_query False qf args files = ([no_index_message], [], Returned, files)
   \<and> fst (tab1 False qf inp files) =
       Warning ''No index found. Ingest documents and images first using the sidebar or Ingest tab.''
         # fst (tab1 True qf inp files)
   \<and> snd (tab1 False qf inp files) = snd (tab1 True qf inp files)"
proof -
  have "fst (tab1 loaded qf inp files) = index_warning loaded @ fst (tab1 True qf inp files)
        \<and> snd (tab1 loaded qf inp files) = snd (tab1 True qf inp files)" for loaded
    by (simp add: tab1_def index_warning_def Let_def split: prod.splits sum.splits)
  from this [of False] show ?thesis
    by (simp add: cmd_query_not_loaded index_warning_def)
qed

theorem load_index_false_handling_witness:
  "cmd_query False answering \<lparr>arg_question = Some ''q'', arg_image = None, arg_top_k = 5\<rparr> Map.empty
     = ([no_index_message], [], Returned, Map.empty)
   \<and> fst (tab1 False answering
        \<lparr>radio_query_type = Text, text_question = '''', file_upload = None, search_pressed = False\<rparr>
        Map.empty)
     = [Warning ''No index found. Ingest documents and images first using the sidebar or Ingest tab.'']"
  using load_index_false_handling
    [of answering "\<lparr>arg_question = Some ''q'', arg_image = None, arg_top_k = 5\<rparr>" Map.empty
        "\<lparr>radio_query_type = Text, text_question = '''', file_upload = None, search_pressed = False\<rparr>"]
  by (simp add: tab1_idle index_warning_def)

lemma cmd_ingest_load_raises:
  "store_load D (make_store D (provider_dimension D)) = Inl e \<Longrightarrow> cmd_ingest D a = Inl e"
  by (simp add: cmd_ingest_def)

lemma cmd_ingest_documents_raise:
  "store_load D (make_store D (provider_dimension D)) = Inr (found, s0) \<Longrightarrow>
   documents_step D a s0 = Inl e \<Longrightarrow> cmd_ingest D a = Inl e"
  by (simp add: cmd_ingest_def)

lemma cmd_ingest_images_raise:
  "store_load D (make_store D (provider_dimension D)) = Inr (found, s0) \<Longrightarrow>
   documents_step D a s0 = Inr (n, s1) \<Longrightarrow> images_step D a s1 = Inl e \<Longrightarrow>
   cmd_ingest D a = Inl e"
  by (simp add: cmd_ingest_def)

text \<open>
  On the command surface an exception raised by \<^verbatim>\<open>rag.query\<close> is not caught: the command
  has printed "Retrieving and generating..." and the exception leaves \<^verbatim>\<open>cmd_query\<close>.
\<close>

theorem uncaught_on_command_surface_counterexample:
  "cmd_query True (failing backend_down)
     \<lparr>arg_question = Some ''What color is the sky?'', arg_image = None, arg_top_k = 5\<rparr> Map.empty
   = ([''Retrieving and generating...''],
      [\<lparr>call_question = ''What color is the sky?'', call_image = None, call_top_k = Some 5\<rparr>],
      Uncaught backend_down, Map.empty)"
  by (simp add: cmd_query_loaded failing_def)

text \<open>
  Claim C3, as amended. Let \<^verbatim>\<open>rag.query\<close> raise \<open>e\<close> on every call. On the interactive
  surface a search with a question or an image shows \<open>str(e)\<close> as an error message after
  the index warning, and an ingest button whose \<^verbatim>\<open>ingest_all()\<close> raised \<open>e\<close> shows
  \<open>str(e)\<close>. On the command surface nothing is caught: \<open>e\<close> leaves \<^verbatim>\<open>cmd_query\<close>, and an
  exception raised by \<^verbatim>\<open>vector_store.load()\<close>, by the document ingestion or by the image
  ingestion leaves \<^verbatim>\<open>cmd_ingest\<close>.
\<close>

theorem errors_caught_interactive_only:
  assumes raises: "\<And>files c. fst (qf files c) = Inl e"
  shows
    "(search_pressed inp \<and>
        (text_question inp \<noteq> [] \<or> (radio_query_type inp = Image \<and> file_upload inp \<noteq> None)) \<longrightarrow>
          fst (tab1 loaded qf inp files) = index_warning loaded @ [Error (message e)])
     \<and> ingest_button (Inl e) = [Error (message e)]
     \<and> fst (snd (snd (cmd_query True qf args files))) = Uncaught e
     \<and> (store_load D (make_store D (provider_dimension D)) = Inl e \<longrightarrow> cmd_ingest D a = Inl e)
     \<and> (store_load D (make_store D (provider_dimension D)) = Inr (found, s0)
          \<and> documents_step D a s0 = Inl e \<longrightarrow> cmd_ingest D a = Inl e)
     \<and> (store_load D (make_store D (provider_dimension D)) = Inr (found, s0)
          \<and> documents_step D a s0 = Inr (n, s1) \<and> images_step D a s1 = Inl e \<longrightarrow>
            cmd_ingest D a = Inl e)"
proof -
  have app: "fst (tab1 loaded qf inp files) = index_warning loaded @ [Error (message e)]"
    if pressed: "search_pressed inp"
      and given: "text_question inp \<noteq> [] \<or> (radio_query_type inp = Image \<and> file_upload inp \<noteq> None)"
  proof (cases "radio_query_type inp = Image \<and> file_upload inp \<noteq> None")
    case True
    then obtain bytes where "radio_query_type inp = Image" "file_upload inp = Some bytes" by auto
    with pressed show ?thesis by (simp add: tab1_image raises)
  next
    case False
    then have nt: "radio_query_type inp = Text \<or> file_upload inp = None"
      by (cases "radio_query_type inp") simp_all
    from given False have "text_question inp \<noteq> []" by blast
    with pressed nt show ?thesis by (simp add: tab1_text raises)
  qed
  have cli: "fst (snd (snd (cmd_query True qf args files))) = Uncaught e"
    by (simp add: cmd_query_loaded raises)
  have btn: "ingest_button (Inl e) = [Error (message e)]"
    by (simp add: ingest_button_def)
  have ing1: "store_load D (make_store D (provider_dimension D)) = Inl e \<longrightarrow> cmd_ingest D a = Inl e"
    by (rule impI) (rule cmd_ingest_load_raises)
  have ing2: "store_load D (make_store D (provider_dimension D)) = Inr (found, s0)
          \<and> documents_step D a s0 = Inl e \<longrightarrow> cmd_ingest D a = Inl e"
    by (intro impI, elim conjE) (rule cmd_ingest_documents_raise)
  have ing3: "store_load D (make_store D (provider_dimension D)) = Inr (found, s0)
          \<and> documents_step D a s0 = Inr (n, s1) \<and> images_step D a s1 = Inl e \<longrightarrow>
            cmd_ingest D a = Inl e"
    by (intro impI, elim conjE) (rule cmd_ingest_images_raise)
  from app have app': "search_pressed inp \<and>
        (text_question inp \<noteq> [] \<or> (radio_query_type inp = Image \<and> file_upload inp \<noteq> None)) \<longrightarrow>
          fst (tab1 loaded qf inp files) = index_warning loaded @ [Error (message e)]"
    by blast
  from app' btn cli ing1 ing2 ing3 show ?thesis
    by (intro conjI)
qed

theorem errors_caught_interactive_only_witness:
  "tab1 True (failing backend_down)
     \<lparr>radio_query_type = Image, text_question = [], file_upload = Some ''png bytes'', search_pressed = True\<rparr>
     Map.empty
   = ([Error ''embedding backend unreachable''],
      [\<lparr>call_question = ''What is in this image?'', call_image = Some ''tmp_query.png'', call_top_k = None\<rparr>],
      Map.empty)
   \<and> ingest_button (Inl backend_down) = [Error ''embedding backend unreachable'']
   \<and> fst (snd (snd (cmd_query True (failing backend_down)
           \<lparr>arg_question = None, arg_image = Some ''cat.png'', arg_top_k = 3\<rparr> Map.empty)))
     = Uncaught backend_down
   \<and> cmd_ingest sample_deps \<lparr>arg_all = False, arg_documents = None, arg_images = Some [''cat.png'']\<rparr>
     = Inl backend_down"
proof -
  have r: "\<And>files c. fst (failing backend_down files c) = Inl backend_down"
    by (simp add: failing_def)
  have t: "tab1 True (failing backend_down)
     \<lparr>radio_query_type = Image, text_question = [], file_upload = Some ''png bytes'', search_pressed = True\<rparr>
     Map.empty
   = ([Error ''embedding backend unreachable''],
      [\<lparr>call_question = ''What is in this image?'', call_image = Some ''tmp_query.png'', call_top_k = None\<rparr>],
      Map.empty)"
    by (simp add: tab1_image failing_def backend_down_def default_prompt_def tmp_def index_warning_def)
  have b: "message backend_down = ''embedding backend unreachable''"
    by (simp add: backend_down_def)
  have l: "store_load sample_deps (make_store sample_deps (provider_dimension sample_deps)) = Inr (True, 3)"
    by (simp add: sample_deps_def)
  have d: "documents_step sample_deps
             \<lparr>arg_all = False, arg_documents = None, arg_images = Some [''cat.png'']\<rparr> 3 = Inr (0, 3)"
    by (simp add: documents_step_def)
  have i: "images_step sample_deps
             \<lparr>arg_all = False, arg_documents = None, arg_images = Some [''cat.png'']\<rparr> 3 = Inl backend_down"
    by (simp add: images_step_def sample_deps_def)
  from errors_caught_interactive_only [of "failing backend_down" backend_down, OF r,
        where inp = "\<lparr>radio_query_type = Image, text_question = [], file_upload = Some ''png bytes'', search_pressed = True\<rparr>"
          and loaded = True and files = Map.empty
          and args = "\<lparr>arg_question = None, arg_image = Some ''cat.png'', arg_top_k = 3\<rparr>"
          and D = sample_deps and found = True and ?s0.0 = 3 and n = 0 and ?s1.0 = 3
          and a = "\<lparr>arg_all = False, arg_documents = None, arg_images = Some [''cat.png'']\<rparr>"]
  show ?thesis
    by (simp add: t b l d i)
qed

text \<open>
  Claim C7. Every call of \<^verbatim>\<open>rag.query\<close> made by either surface carries a non-empty
  question: the caller's question when it is non-empty, the default prompt
  "What is in this image?" otherwise (a question that is \<^verbatim>\<open>None\<close> or empty).
\<close>

theorem question_never_empty:
  "(\<forall>c \<in> set (fst (snd (tab1 loaded qf inp files))).
       call_question c \<noteq> [] \<and> call_question c = or_else (Some (text_question inp)) default_prompt)
   \<and> (\<forall>c \<in> set (fst (snd (cmd_query loaded qf args files))).
       call_question c \<noteq> [] \<and> call_question c = or_else (arg_question args) default_prompt)
   \<and> (\<not> truthy x \<longrightarrow> or_else x default_prompt = ''What is in this image?'')
   \<and> (truthy x \<longrightarrow> Some (or_else x default_prompt) = x)"
proof -
  have "\<not> truthy x \<longrightarrow> or_else x default_prompt = ''What is in this image?''"
    by (cases x) (auto simp: default_prompt_def)
  moreover have "truthy x \<longrightarrow> Some (or_else x default_prompt) = x"
    by (cases x) auto
  ultimately show ?thesis
    using tab1_calls [of _ loaded qf inp files] cmd_query_calls [of _ loaded qf args files]
    by blast
qed

theorem question_never_empty_witness:
  "fst (snd (tab1 True answering
        \<lparr>radio_query_type = Image, text_question = '''', file_upload = Some ''png bytes'', search_pressed = True\<rparr>
        Map.empty))
     = [\<lparr>call_question = ''What is in this image?'', call_image = Some ''tmp_query.png'', call_top_k = None\<rparr>]
   \<and> fst (snd (cmd_query True answering \<lparr>arg_question = Some '''', arg_image = Some ''cat.png'', arg_top_k = 5\<rparr> Map.empty))
     = [\<lparr>call_question = ''What is in this image?'', call_image = Some ''cat.png'', call_top_k = Some 5\<rparr>]
   \<and> fst (snd (cmd_query True answering \<lparr>arg_question = Some ''What is this?'', arg_image = None, arg_top_k = 5\<rparr> Map.empty))
     = [\<lparr>call_question = ''What is this?'', call_image = None, call_top_k = Some 5\<rparr>]"
  using question_never_empty
    [of True answering
        "\<lparr>radio_query_type = Image, text_question = '''', file_upload = Some ''png bytes'', search_pressed = True\<rparr>"
        Map.empty "\<lparr>arg_question = Some '''', arg_image = Some ''cat.png'', arg_top_k = 5\<rparr>" "Some ''''"]
  by (simp add: tab1_image cmd_query_loaded default_prompt_def tmp_def)

text \<open>
  Claim C9. When a search is submitted in Image mode with an uploaded file, the Query tab
  calls \<^verbatim>\<open>rag.query\<close> once, on a file system in which \<^verbatim>\<open>tmp_query.png\<close> holds the uploaded
  bytes, and afterwards \<^verbatim>\<open>tmp_query.png\<close> does not exist, whatever the query returned or
  raised and whatever it did to the file system; every other file is as the query left it.
\<close>

theorem tmp_query_removed:
  "radio_query_type inp = Image \<and> file_upload inp = Some bytes \<and> search_pressed inp \<Longrightarrow>
     snd (snd (tab1 loaded qf inp files)) tmp = None
     \<and> fst (snd (tab1 loaded qf inp files)) =
         [\<lparr>call_question = or_else (Some (text_question inp)) default_prompt,
           call_image = Some tmp, call_top_k = None\<rparr>]
     \<and> snd (snd (tab1 loaded qf inp files)) =
         (snd (qf (files(tmp \<mapsto> bytes))
                \<lparr>call_question = or_else (Some (text_question inp)) default_prompt,
                 call_image = Some tmp, call_top_k = None\<rparr>))(tmp := None)"
proof -
  assume h: "radio_query_type inp = Image \<and> file_upload inp = Some bytes \<and> search_pressed inp"
  let ?c = "\<lparr>call_question = or_else (Some (text_question inp)) default_prompt,
            call_image = Some tmp, call_top_k = None\<rparr>"
  from h have run: "tab1 loaded qf inp files =
      (index_warning loaded @
         (case fst (qf (files(tmp \<mapsto> bytes)) ?c) of
            Inl e \<Rightarrow> [Error (message e)]
          | Inr (answer, docs) \<Rightarrow> show_result answer docs),
       [?c], (snd (qf (files(tmp \<mapsto> bytes)) ?c))(tmp := None))"
    by (simp add: tab1_image)
  then have after: "snd (snd (tab1 loaded qf inp files)) = (snd (qf (files(tmp \<mapsto> bytes)) ?c))(tmp := None)"
    and calls: "fst (snd (tab1 loaded qf inp files)) = [?c]"
    by simp_all
  from after have "snd (snd (tab1 loaded qf inp files)) tmp = None" by simp
  with calls after show ?thesis by simp
qed

theorem tmp_query_removed_witness:
  "snd (snd (tab1 True littering
        \<lparr>radio_query_type = Image, text_question = ''a cat?'', file_upload = Some ''png bytes'', search_pressed = True\<rparr>
        [''tmp_query.png'' \<mapsto> ''left over'', ''notes.txt'' \<mapsto> ''n'']))
     = [''notes.txt'' \<mapsto> ''n'', ''cache.bin'' \<mapsto> ''x'']
   \<and> snd (snd (tab1 True (failing backend_down)
        \<lparr>radio_query_type = Image, text_question = ''a cat?'', file_upload = Some ''png bytes'', search_pressed = True\<rparr>
        [''notes.txt'' \<mapsto> ''n''])) ''tmp_query.png'' = None"
proof -
  have a: "radio_query_type \<lparr>radio_query_type = Image, text_question = ''a cat?'', file_upload = Some ''png bytes'', search_pressed = True\<rparr> = Image
     \<and> file_upload \<lparr>radio_query_type = Image, text_question = ''a cat?'', file_upload = Some ''png bytes'', search_pressed = True\<rparr> = Some ''png bytes''
     \<and> search_pressed \<lparr>radio_query_type = Image, text_question = ''a cat?'', file_upload = Some ''png bytes'', search_pressed = True\<rparr>"
    by simp
  show ?thesis
    using tmp_query_removed [OF a, of True littering "[''tmp_query.png'' \<mapsto> ''left over'', ''notes.txt'' \<mapsto> ''n'']"]
      tmp_query_removed [OF a, of True "failing backend_down" "[''notes.txt'' \<mapsto> ''n'']"]
    by (auto simp: littering_def tmp_def fun_eq_iff)
qed

text \<open>
  Claim C4. With a non-empty question \<open>q\<close> and an uploaded image, the interactive surface
  passes both to \<^verbatim>\<open>rag.query\<close>: the question \<open>q\<close> and the path \<^verbatim>\<open>tmp_query.png\<close>. A query
  with a question and an image makes one embedding call, for the image; it makes no text
  embedding call; the records it returns are those found for the image's vector; and the
  generation call gets the question \<open>q\<close> as its prompt, with the context and the image.
\<close>

theorem image_is_search_modality:
  "q \<noteq> [] \<Longrightarrow>
     (radio_query_type inp = Image \<and> file_upload inp = Some bytes \<and> search_pressed inp
        \<and> text_question inp = q \<longrightarrow>
          fst (snd (tab1 loaded qf inp files)) =
            [\<lparr>call_question = q, call_image = Some tmp, call_top_k = None\<rparr>])
     \<and> snd (query B s (Some q) (Some img) k) =
          (case embed_image B img of
             Inl e \<Rightarrow> [EmbedImage img]
           | Inr v \<Rightarrow> [EmbedImage img, Generate q (assemble B (dedupe B (search B s v k))) (Some img)])
     \<and> (\<forall>t. EmbedText t \<notin> set (snd (query B s (Some q) (Some img) k)))
     \<and> (\<forall>v answer. embed_image B img = Inr v
           \<and> generate B q (assemble B (dedupe B (search B s v k))) (Some img) = Inr answer \<longrightarrow>
             fst (query B s (Some q) (Some img) k) = Inr (answer, dedupe B (search B s v k)))"
proof -
  assume q: "q \<noteq> []"
  then have oe: "or_else (Some q) default_prompt = q" by simp
  have tr: "snd (query B s (Some q) (Some img) k) =
          (case embed_image B img of
             Inl e \<Rightarrow> [EmbedImage img]
           | Inr v \<Rightarrow> [EmbedImage img, Generate q (assemble B (dedupe B (search B s v k))) (Some img)])"
    using q by (simp add: query_image_trace split: sum.splits)
  have no_text: "\<forall>t. EmbedText t \<notin> set (snd (query B s (Some q) (Some img) k))"
    by (simp add: tr split: sum.splits)
  have res: "\<forall>v answer. embed_image B img = Inr v
           \<and> generate B q (assemble B (dedupe B (search B s v k))) (Some img) = Inr answer \<longrightarrow>
             fst (query B s (Some q) (Some img) k) = Inr (answer, dedupe B (search B s v k))"
  proof (intro allI impI)
    fix v answer
    assume h: "embed_image B img = Inr v
           \<and> generate B q (assemble B (dedupe B (search B s v k))) (Some img) = Inr answer"
    with oe show "fst (query B s (Some q) (Some img) k) = Inr (answer, dedupe B (search B s v k))"
      using query_image_result [of B img v "Some q" s k answer] by simp
  qed
  have app: "radio_query_type inp = Image \<and> file_upload inp = Some bytes \<and> search_pressed inp
        \<and> text_question inp = q \<longrightarrow>
          fst (snd (tab1 loaded qf inp files)) =
            [\<lparr>call_question = q, call_image = Some tmp, call_top_k = None\<rparr>]"
    using q by (auto simp: tab1_image)
  from app tr no_text res show ?thesis by blast
qed

theorem image_is_search_modality_witness:
  "fst (snd (tab1 True answering
        \<lparr>radio_query_type = Image, text_question = ''is it red?'', file_upload = Some ''png bytes'',
         search_pressed = True\<rparr> Map.empty))
     = [\<lparr>call_question = ''is it red?'', call_image = Some ''tmp_query.png'', call_top_k = None\<rparr>]
   \<and> query sample_backends sample_store (Some ''is it red?'') (Some ''tmp_query.png'') 5
     = (Inr (''answer to: is it red?'', [sample_record]),
        [EmbedImage ''tmp_query.png'', Generate ''is it red?'' ''a red square'' (Some ''tmp_query.png'')])"
proof -
  have q: "''is it red?'' \<noteq> []" by simp
  have r: "query sample_backends sample_store (Some ''is it red?'') (Some ''tmp_query.png'') 5
     = (Inr (''answer to: is it red?'', [sample_record]),
        [EmbedImage ''tmp_query.png'', Generate ''is it red?'' ''a red square'' (Some ''tmp_query.png'')])"
    by (simp add: query_def retrieve_generate_def Let_def sample_backends_def sample_store_def sample_record_def)
  from image_is_search_modality [OF q,
      where inp = "\<lparr>radio_query_type = Image, text_question = ''is it red?'', file_upload = Some ''png bytes'',
         search_pressed = True\<rparr>" and bytes = "''png bytes''" and loaded = True and qf = answering
        and files = Map.empty and B = sample_backends and s = sample_store and img = "''tmp_query.png''" and k = 5]
  show ?thesis
    by (simp add: r tmp_def)
qed

section \<open>Properties: the vector index store\<close>

lemma add_Inr:
  "add s v r = Inr s' \<Longrightarrow>
     vectors s' = vectors s @ [v] \<and> records s' = records s @ [r] \<and> dimension s' = dimension s"
  by (auto simp: add_def split: if_splits)

lemma add_all_Inr:
  "add_all s vs rs = Inr s' \<Longrightarrow>
     vectors s' = vectors s @ vs \<and> records s' = records s @ rs \<and> dimension s' = dimension s
     \<and> length vs = length rs"
proof (induction s vs rs rule: add_all.induct)
  case (2 s v vs r rs)
  from "2.prems" obtain s1 where a: "add s v r = Inr s1" and rest: "add_all s1 vs rs = Inr s'"
    by (auto split: sum.splits)
  from "2.IH" [OF a rest] add_Inr [OF a] show ?case by simp
qed simp_all

lemma add_all_fails:
  "n < length vs \<Longrightarrow> length vs = length rs \<Longrightarrow> length (vs ! n) \<noteq> dimension s \<Longrightarrow>
     \<exists>e. add_all s vs rs = Inl e"
proof (induction s vs rs arbitrary: n rule: add_all.induct)
  case (2 s v vs r rs)
  show ?case
  proof (cases "add s v r")
    case (Inl e)
    then show ?thesis by simp
  next
    case (Inr s1)
    then have d: "dimension s1 = dimension s" and lv: "length v = dimension s"
      by (auto simp: add_def split: if_splits)
    with "2.prems" obtain m where n: "n = Suc m" by (cases n) auto
    with "2.prems" d have "m < length vs" "length vs = length rs" "length (vs ! m) \<noteq> dimension s1"
      by auto
    from "2.IH" [OF Inr this] Inr show ?thesis by simp
  qed
qed simp_all

text \<open>
  Claim C5. When \<^verbatim>\<open>add_batch\<close> fails, the store after the call is the store before it, so
  the count is unchanged; when it succeeds, all the vectors and all the records have been
  appended, in order. A vector of the wrong length at any position of the batch makes it
  fail, and the two collections of the store stay of equal length either way.
\<close>

theorem add_batch_atomic:
  "(\<forall>e. fst (add_batch s vs rs) = Inl e \<longrightarrow>
        snd (add_batch s vs rs) = s \<and> count (snd (add_batch s vs rs)) = count s)
   \<and> (fst (add_batch s vs rs) = Inr () \<longrightarrow>
        vectors (snd (add_batch s vs rs)) = vectors s @ vs
        \<and> records (snd (add_batch s vs rs)) = records s @ rs
        \<and> count (snd (add_batch s vs rs)) = count s + length vs)
   \<and> (n < length vs \<and> length vs = length rs \<and> length (vs ! n) \<noteq> dimension s \<longrightarrow>
        (\<exists>e. fst (add_batch s vs rs) = Inl e))
   \<and> (length (vectors s) = length (records s) \<longrightarrow>
        length (vectors (snd (add_batch s vs rs))) = length (records (snd (add_batch s vs rs))))"
proof (cases "add_all s vs rs")
  case (Inl e)
  then have "add_batch s vs rs = (Inl e, s)" by (simp add: add_batch_def)
  then show ?thesis by simp
next
  case (Inr s')
  then have b: "add_batch s vs rs = (Inr (), s')" by (simp add: add_batch_def)
  from add_all_Inr [OF Inr] have
    props: "vectors s' = vectors s @ vs" "records s' = records s @ rs" "length vs = length rs"
    and d: "dimension s' = dimension s"
    by simp_all
  have nofail: "\<not> (n < length vs \<and> length vs = length rs \<and> length (vs ! n) \<noteq> dimension s)"
    using add_all_fails [of n vs rs s] Inr by auto
  from b props nofail show ?thesis by (simp add: count_def)
qed

theorem add_batch_atomic_witness:
  "add_batch sample_store [[1, 2], [9], [5, 6]] [sample_record, sample_record, sample_record]
     = (Inl (Exn DimensionMismatch ''DimensionMismatch''), sample_store)
   \<and> count sample_store = 1
   \<and> count (snd (add_batch sample_store [[1, 2], [5, 6]] [sample_record, sample_record])) = 3"
  using add_batch_atomic [of sample_store "[[1, 2], [9], [5, 6]]" "[sample_record, sample_record, sample_record]" 1]
    add_batch_atomic [of sample_store "[[1, 2], [5, 6]]" "[sample_record, sample_record]" 0]
  by (simp add: add_batch_def add_def sample_store_def count_def)

section \<open>Properties: the ingest command\<close>

lemma grows_refl: "grows s s"
  by (simp add: grows_def)

lemma grows_trans: "grows a b \<Longrightarrow> grows b c \<Longrightarrow> grows a c"
proof -
  assume ab: "grows a b" and bc: "grows b c"
  then have "length (vectors a) \<le> length (vectors b)" "length (vectors b) \<le> length (vectors c)"
    "length (records a) \<le> length (records b)" "length (records b) \<le> length (records c)"
    by (auto simp: grows_def prefix_length_le)
  moreover from ab bc have "prefix (vectors a) (vectors c)" "prefix (records a) (records c)"
    by (auto simp: grows_def intro: prefix_order.trans)
  moreover from ab bc have "dimension c = dimension a"
    and "length (vectors b) - length (vectors a) = length (records b) - length (records a)"
    and "length (vectors c) - length (vectors b) = length (records c) - length (records b)"
    by (simp_all add: grows_def)
  ultimately show ?thesis
    unfolding grows_def by (intro conjI) (assumption, assumption, assumption, arith)
qed

lemma grows_count: "grows s s' \<Longrightarrow> count s \<le> count s'"
  by (simp add: grows_def count_def prefix_length_le)

lemma add_grows: "add s v r = Inr s' \<Longrightarrow> grows s s' \<and> count s' = Suc (count s)"
  by (auto simp: add_def grows_def count_def split: if_splits)

lemma ingest_item_grows:
  "ingest_item emb r (n, s) = Inr (n', s') \<Longrightarrow> grows s s' \<and> count s' + n = count s + n'"
  by (auto simp: ingest_item_def grows_refl split: sum.splits if_splits dest: add_grows)

lemma ingest_chunks_grows:
  "ingest_chunks B file i cs (n, s) = Inr (n', s') \<Longrightarrow> grows s s' \<and> count s' + n = count s + n'"
proof (induction cs arbitrary: i n s)
  case Nil
  then show ?case by (simp add: grows_refl)
next
  case (Cons c cs)
  from Cons.prems obtain n1 s1 where
    step: "ingest_item (embed_text B c)
             \<lparr>rec_id = 0, rec_type = TextRecord, rec_source = file, rec_content = c,
              chunk_index = Some i, page = None\<rparr> (n, s) = Inr (n1, s1)"
    and rest: "ingest_chunks B file (Suc i) cs (n1, s1) = Inr (n', s')"
    by (auto split: sum.splits)
  from ingest_item_grows [OF step] Cons.IH [OF rest] show ?case
    by (auto intro: grows_trans)
qed

lemma ingest_files_grows:
  "ingest_files B env fs (n, s) = Inr (n', s') \<Longrightarrow> grows s s' \<and> count s' + n = count s + n'"
proof (induction fs arbitrary: n s)
  case Nil
  then show ?case by (simp add: grows_refl)
next
  case (Cons f fs)
  show ?case
  proof (cases "read_chunks env f")
    case None
    with Cons.prems have "ingest_files B env fs (n, s) = Inr (n', s')" by simp
    from Cons.IH [OF this] show ?thesis .
  next
    case (Some cs)
    with Cons.prems obtain n1 s1 where
      step: "ingest_chunks B f 0 cs (n, s) = Inr (n1, s1)"
      and rest: "ingest_files B env fs (n1, s1) = Inr (n', s')"
      by (auto split: sum.splits)
    from ingest_chunks_grows [OF step] Cons.IH [OF rest] show ?thesis
      by (auto intro: grows_trans)
  qed
qed

lemma ingest_image_files_grows:
  "ingest_image_files B fs (n, s) = Inr (n', s') \<Longrightarrow> grows s s' \<and> count s' + n = count s + n'"
proof (induction fs arbitrary: n s)
  case Nil
  then show ?case by (simp add: grows_refl)
next
  case (Cons f fs)
  from Cons.prems obtain n1 s1 where
    step: "ingest_item (embed_image B f)
             \<lparr>rec_id = 0, rec_type = ImageRecord, rec_source = f, rec_content = [],
              chunk_index = None, page = None\<rparr> (n, s) = Inr (n1, s1)"
    and rest: "ingest_image_files B fs (n1, s1) = Inr (n', s')"
    by (auto split: sum.splits)
  from ingest_item_grows [OF step] Cons.IH [OF rest] show ?case
    by (auto intro: grows_trans)
qed

lemma ingest_documents_grows:
  "ingest_documents B env paths directory s = Inr (n, s') \<Longrightarrow> grows s s' \<and> count s' = count s + n"
  using ingest_files_grows [of B env "sources_of env paths directory" 0 s n s']
  by (simp add: ingest_documents_def)

lemma ingest_images_grows:
  "ingest_images B env paths directory s = Inr (n, s') \<Longrightarrow> grows s s' \<and> count s' = count s + n"
  using ingest_image_files_grows [of B "sources_of env paths directory" 0 s n s']
  by (simp add: ingest_images_def)

lemma load_found: "load (Some p) s = Inr (found, s0) \<Longrightarrow> found \<and> s0 = p"
  by (auto simp: load_def split: if_splits)

lemma cmd_ingest_Inr:
  assumes "cmd_ingest D args = Inr (out, s2)"
  shows "\<exists>found s0 doc_count s1 img_count.
           store_load D (make_store D (provider_dimension D)) = Inr (found, s0)
           \<and> documents_step D args s0 = Inr (doc_count, s1)
           \<and> images_step D args s1 = Inr (img_count, s2)
           \<and> out = [''Ingested: '' @ str_nat doc_count @ '' text chunks, '' @ str_nat img_count @ '' images.'',
                    ''Total vectors: '' @ str_nat (store_count D s2)]"
  using assms by (auto simp: cmd_ingest_def split: sum.splits prod.splits)

text \<open>
  Claim C6. \<^verbatim>\<open>cmd_ingest\<close> runs the ingestion on the store that \<^verbatim>\<open>vector_store.load()\<close>
  has filled, not on a fresh one: for every relation \<open>R\<close> between stores that holds from a
  store to itself, is transitive, and holds from the store an ingestion function is given
  to the store it leaves (such as "is grown from"), when the command returns, \<open>R\<close> holds
  from the store left by \<^verbatim>\<open>load()\<close> to the store at the end.
\<close>

theorem ingest_grows_loaded_index:
  assumes docs: "\<And>paths directory s n s'. ingest_documents_impl D paths directory s = Inr (n, s') \<Longrightarrow> R s s'"
    and imgs: "\<And>paths directory s n s'. ingest_images_impl D paths directory s = Inr (n, s') \<Longrightarrow> R s s'"
    and refl: "\<And>s. R s s"
    and trans: "\<And>a b c. R a b \<Longrightarrow> R b c \<Longrightarrow> R a c"
    and returns: "cmd_ingest D args = Inr (out, s2)"
  shows "\<exists>found s0. store_load D (make_store D (provider_dimension D)) = Inr (found, s0) \<and> R s0 s2"
proof -
  from cmd_ingest_Inr [OF returns] obtain found s0 doc_count s1 img_count where
    l: "store_load D (make_store D (provider_dimension D)) = Inr (found, s0)"
    and d: "documents_step D args s0 = Inr (doc_count, s1)"
    and i: "images_step D args s1 = Inr (img_count, s2)"
    by blast
  have "R s0 s1"
  proof (cases "truthy_list (arg_documents args) \<or> arg_all args")
    case True
    with d show ?thesis by (auto simp: documents_step_def dest: docs)
  next
    case False
    with d show ?thesis by (simp add: documents_step_def refl)
  qed
  moreover have "R s1 s2"
  proof (cases "truthy_list (arg_images args) \<or> arg_all args")
    case True
    with i show ?thesis by (auto simp: images_step_def dest: imgs)
  next
    case False
    with i show ?thesis by (simp add: images_step_def refl)
  qed
  ultimately have "R s0 s2" by (rule trans)
  with l show ?thesis by blast
qed

lemma sample_ingest_run:
  "cmd_ingest (engine sample_backends sample_env (Some sample_store) ''data/documents'' ''data/images'')
     \<lparr>arg_all = False, arg_documents = Some [''sky.txt'', ''missing.txt''], arg_images = Some [''red2.png'']\<rparr>
   = Inr ([''Ingested: 2 text chunks, 1 images.'', ''Total vectors: 4''], sample_store_after)"
  by (simp add: cmd_ingest_def engine_def documents_step_def images_step_def ingest_documents_def
      ingest_images_def sources_of_def ingest_item_def add_def load_def new_store_def
      sample_backends_def sample_env_def sample_store_def sample_store_after_def sample_record_def
      count_def str_nat.simps digit_def)

theorem ingest_grows_loaded_index_witness:
  "cmd_ingest (engine sample_backends sample_env (Some sample_store) ''data/documents'' ''data/images'')
     \<lparr>arg_all = False, arg_documents = Some [''sky.txt'', ''missing.txt''], arg_images = Some [''red2.png'']\<rparr>
   = Inr ([''Ingested: 2 text chunks, 1 images.'', ''Total vectors: 4''], sample_store_after)
   \<and> load (Some sample_store) (new_store 2) = Inr (True, sample_store)
   \<and> grows sample_store sample_store_after"
proof -
  let ?D = "engine sample_backends sample_env (Some sample_store) ''data/documents'' ''data/images''"
  have l: "store_load ?D (make_store ?D (provider_dimension ?D)) = Inr (True, sample_store)"
    by (simp add: engine_def load_def new_store_def sample_backends_def sample_store_def)
  have l': "load (Some sample_store) (new_store 2) = Inr (True, sample_store)"
    by (simp add: load_def new_store_def sample_store_def)
  have d: "\<And>paths directory s n s'. ingest_documents_impl ?D paths directory s = Inr (n, s') \<Longrightarrow> grows s s'"
    by (simp add: engine_def ingest_documents_grows)
  have i: "\<And>paths directory s n s'. ingest_images_impl ?D paths directory s = Inr (n, s') \<Longrightarrow> grows s s'"
    by (simp add: engine_def ingest_images_grows)
  have "\<exists>found s0. store_load ?D (make_store ?D (provider_dimension ?D)) = Inr (found, s0)
          \<and> grows s0 sample_store_after"
  proof (rule ingest_grows_loaded_index [where D = ?D and R = grows])
    show "\<And>paths directory s n s'. ingest_documents_impl ?D paths directory s = Inr (n, s') \<Longrightarrow> grows s s'"
      by (rule d)
    show "\<And>paths directory s n s'. ingest_images_impl ?D paths directory s = Inr (n, s') \<Longrightarrow> grows s s'"
      by (rule i)
    show "\<And>s :: nat store. grows s s" by (rule grows_refl)
    show "\<And>a b c :: nat store. grows a b \<Longrightarrow> grows b c \<Longrightarrow> grows a c" by (rule grows_trans)
    show "cmd_ingest ?D
       \<lparr>arg_all = False, arg_documents = Some [''sky.txt'', ''missing.txt''], arg_images = Some [''red2.png'']\<rparr>
      = Inr ([''Ingested: 2 text chunks, 1 images.'', ''Total vectors: 4''], sample_store_after)"
      by (rule sample_ingest_run)
  qed
  with l have "grows sample_store sample_store_after" by auto
  with l' sample_ingest_run show ?thesis by simp
qed

text \<open>
  On the modelled engine: an ingest run over a saved index \<open>p\<close> that returns leaves a store
  grown from \<open>p\<close>.
\<close>

lemma engine_ingest_grows:
  assumes "cmd_ingest (engine B env (Some p) ddir idir) args = Inr (out, s2)"
  shows "grows p s2 \<and> count p \<le> count s2"
proof -
  let ?D = "engine B env (Some p) ddir idir"
  from cmd_ingest_Inr [OF assms] obtain found s0 doc_count s1 img_count where
    l: "store_load ?D (make_store ?D (provider_dimension ?D)) = Inr (found, s0)"
    and d: "documents_step ?D args s0 = Inr (doc_count, s1)"
    and i: "images_step ?D args s1 = Inr (img_count, s2)"
    by blast
  from l have "s0 = p" by (auto simp: engine_def dest: load_found)
  moreover from d have "grows s0 s1"
    by (auto simp: documents_step_def engine_def grows_refl split: if_splits dest: ingest_documents_grows)
  moreover from i have "grows s1 s2"
    by (auto simp: images_step_def engine_def grows_refl split: if_splits dest: ingest_images_grows)
  ultimately have "grows p s2" by (auto intro: grows_trans)
  then show ?thesis by (simp add: grows_count)
qed

section \<open>Properties: the command line\<close>

lemma digit_not_sign: "d < 10 \<Longrightarrow> digit d \<noteq> CHR ''-'' \<and> digit d \<noteq> CHR ''+''"
proof -
  assume "d < 10"
  then have "d \<in> {0, 1, 2, 3, 4, 5, 6, 7, 8, 9}" by auto
  then show ?thesis by (auto simp: digit_def)
qed

lemma str_nat_head:
  "\<exists>c cs. str_nat n = c # cs \<and> c \<noteq> CHR ''-'' \<and> c \<noteq> CHR ''+''"
proof (induction n rule: str_nat.induct)
  case (1 n)
  show ?case
  proof (cases "n < 10")
    case True
    then show ?thesis
      by (subst str_nat.simps) (simp add: digit_not_sign)
  next
    case False
    with 1 obtain c cs where "str_nat (n div 10) = c # cs" "c \<noteq> CHR ''-''" "c \<noteq> CHR ''+''"
      by auto
    with False show ?thesis
      by (subst str_nat.simps) simp
  qed
qed

lemma plain_str_nat: "plain (str_nat n)"
  using str_nat_head [of n] by auto

lemma parse_int_str_nat: "parse_int (str_nat n) = Some (int n)"
proof -
  from str_nat_head [of n] obtain c cs where
    s: "str_nat n = c # cs" and c: "c \<noteq> CHR ''-''" "c \<noteq> CHR ''+''"
    by blast
  have "parse_nat (c # cs) = Some n"
    using parse_nat_str_nat [of n] s by simp
  with s c show ?thesis by (simp add: parse_int_def)
qed

lemma takeWhile_plain:
  "list_all plain ds \<Longrightarrow> \<not> plain t \<Longrightarrow>
     takeWhile plain (ds @ t # rest) = ds \<and> dropWhile plain (ds @ t # rest) = t # rest"
  by (induction ds) auto

lemma takeWhile_plain_end:
  "list_all plain ds \<Longrightarrow> takeWhile plain ds = ds \<and> dropWhile plain ds = []"
  by (induction ds) auto

lemma parse_ingest_paths:
  assumes "list_all plain ds" "list_all plain imgs"
  shows "parse_ingest \<lparr>arg_all = False, arg_documents = None, arg_images = None\<rparr>
           (''--documents'' # ds @ ''--images'' # imgs)
         = Inr \<lparr>arg_all = False, arg_documents = Some ds, arg_images = Some imgs\<rparr>"
proof -
  have np: "\<not> plain ''--images''" by simp
  from takeWhile_plain [OF assms(1) np, of imgs]
  have a: "takeWhile plain (ds @ ''--images'' # imgs) = ds"
    "dropWhile plain (ds @ ''--images'' # imgs) = ''--images'' # imgs"
    by simp_all
  from takeWhile_plain_end [OF assms(2)]
  have b: "takeWhile plain imgs = imgs" "dropWhile plain imgs = []"
    by simp_all
  show ?thesis by (simp add: a b)
qed

lemma parse_query_full:
  "plain q \<Longrightarrow> plain p \<Longrightarrow>
   parse_query [q, ''--image'', p, ''--top-k'', str_nat k]
     = Inr \<lparr>arg_question = Some q, arg_image = Some p, arg_top_k = int k\<rparr>"
  by (simp add: parse_query_def plain_str_nat parse_int_str_nat)

text \<open>
  Claim C8. The command surface has the subcommands \<^verbatim>\<open>ingest\<close>, \<^verbatim>\<open>query\<close> and \<^verbatim>\<open>app\<close>:
  \<^verbatim>\<open>ingest --all\<close> asks for all content, \<^verbatim>\<open>ingest --documents ... --images ...\<close> for the
  paths listed; \<^verbatim>\<open>query\<close> takes a question, an image path or both, and \<^verbatim>\<open>--top-k\<close> sets the
  result count, 5 when absent; \<^verbatim>\<open>app\<close> takes \<^verbatim>\<open>--port\<close>, 8501 when absent. \<^verbatim>\<open>main\<close> runs
  \<^verbatim>\<open>cmd_ingest\<close>, \<^verbatim>\<open>cmd_query\<close> or \<^verbatim>\<open>cmd_app\<close> on the parsed arguments, and \<^verbatim>\<open>cmd_app\<close>
  launches \<^verbatim>\<open>streamlit run app.py\<close> on that port.
\<close>

theorem command_surface_subcommands:
  "parse_args [''ingest'', ''--all'']
     = Inr (RunIngest \<lparr>arg_all = True, arg_documents = None, arg_images = None\<rparr>)
   \<and> (list_all plain ds \<and> list_all plain imgs \<longrightarrow>
        parse_args (''ingest'' # ''--documents'' # ds @ ''--images'' # imgs)
          = Inr (RunIngest \<lparr>arg_all = False, arg_documents = Some ds, arg_images = Some imgs\<rparr>))
   \<and> (plain q \<longrightarrow>
        parse_args [''query'', q]
          = Inr (RunQuery \<lparr>arg_question = Some q, arg_image = None, arg_top_k = 5\<rparr>))
   \<and> (plain p \<longrightarrow>
        parse_args [''query'', ''--image'', p]
          = Inr (RunQuery \<lparr>arg_question = None, arg_image = Some p, arg_top_k = 5\<rparr>))
   \<and> (plain q \<and> plain p \<longrightarrow>
        parse_args [''query'', q, ''--image'', p, ''--top-k'', str_nat k]
          = Inr (RunQuery \<lparr>arg_question = Some q, arg_image = Some p, arg_top_k = int k\<rparr>))
   \<and> parse_args [''app''] = Inr (RunApp \<lparr>arg_port = 8501\<rparr>)
   \<and> parse_args [''app'', ''--port'', str_nat k] = Inr (RunApp \<lparr>arg_port = int k\<rparr>)
   \<and> (parse_args argv = Inr (RunIngest ia) \<longrightarrow>
        main D loaded qf exe files argv = IngestRun (cmd_ingest D ia))
   \<and> (parse_args argv = Inr (RunQuery qa) \<longrightarrow>
        main D loaded qf exe files argv = QueryRun (cmd_query loaded qf qa files))
   \<and> (parse_args argv = Inr (RunApp aa) \<longrightarrow>
        main D loaded qf exe files argv
          = AppRun [exe, ''-m'', ''streamlit'', ''run'', ''app.py'', ''--server.port'',
                    str_int (arg_port aa), ''--server.headless'', ''true''])"
proof -
  have c1: "parse_args [''ingest'', ''--all'']
     = Inr (RunIngest \<lparr>arg_all = True, arg_documents = None, arg_images = None\<rparr>)"
    by (simp add: parse_args_def)
  have c2: "list_all plain ds \<and> list_all plain imgs \<longrightarrow>
        parse_args (''ingest'' # ''--documents'' # ds @ ''--images'' # imgs)
          = Inr (RunIngest \<lparr>arg_all = False, arg_documents = Some ds, arg_images = Some imgs\<rparr>)"
    using parse_ingest_paths [of ds imgs] by (simp add: parse_args_def)
  have c3: "plain q \<longrightarrow>
        parse_args [''query'', q]
          = Inr (RunQuery \<lparr>arg_question = Some q, arg_image = None, arg_top_k = 5\<rparr>)"
    by (simp add: parse_args_def parse_query_def)
  have c4: "plain p \<longrightarrow>
        parse_args [''query'', ''--image'', p]
          = Inr (RunQuery \<lparr>arg_question = None, arg_image = Some p, arg_top_k = 5\<rparr>)"
    by (simp add: parse_args_def parse_query_def)
  have c5: "plain q \<and> plain p \<longrightarrow>
        parse_args [''query'', q, ''--image'', p, ''--top-k'', str_nat k]
          = Inr (RunQuery \<lparr>arg_question = Some q, arg_image = Some p, arg_top_k = int k\<rparr>)"
    using parse_query_full [of q p k] by (simp add: parse_args_def)
  have c6: "parse_args [''app''] = Inr (RunApp \<lparr>arg_port = 8501\<rparr>)"
    by (simp add: parse_args_def)
  have c7: "parse_args [''app'', ''--port'', str_nat k] = Inr (RunApp \<lparr>arg_port = int k\<rparr>)"
    by (simp add: parse_args_def plain_str_nat parse_int_str_nat)
  have c8: "parse_args argv = Inr (RunIngest ia) \<longrightarrow>
        main D loaded qf exe files argv = IngestRun (cmd_ingest D ia)"
    by (simp add: main_def)
  have c9: "parse_args argv = Inr (RunQuery qa) \<longrightarrow>
        main D loaded qf exe files argv = QueryRun (cmd_query loaded qf qa files)"
    by (simp add: main_def)
  have c10: "parse_args argv = Inr (RunApp aa) \<longrightarrow>
        main D loaded qf exe files argv
          = AppRun [exe, ''-m'', ''streamlit'', ''run'', ''app.py'', ''--server.port'',
                    str_int (arg_port aa), ''--server.headless'', ''true'']"
    by (simp add: main_def cmd_app_def)
  from c1 c2 c3 c4 c5 c6 c7 c8 c9 c10 show ?thesis
    by (intro conjI)
qed

theorem command_surface_subcommands_witness:
  "parse_args [''ingest'', ''--documents'', ''a.pdf'', ''b.txt'', ''--images'', ''c.png'']
     = Inr (RunIngest \<lparr>arg_all = False, arg_documents = Some [''a.pdf'', ''b.txt''],
                      arg_images = Some [''c.png'']\<rparr>)
   \<and> parse_args [''query'', ''What is AWS Bedrock?'', ''--image'', ''cat.png'', ''--top-k'', ''3'']
     = Inr (RunQuery \<lparr>arg_question = Some ''What is AWS Bedrock?'', arg_image = Some ''cat.png'',
                     arg_top_k = 3\<rparr>)
   \<and> main sample_deps True answering ''python'' Map.empty [''app'', ''--port'', ''8080'']
     = AppRun [''python'', ''-m'', ''streamlit'', ''run'', ''app.py'', ''--server.port'', ''8080'',
               ''--server.headless'', ''true'']
   \<and> main sample_deps False answering ''python'' Map.empty [''query'', ''hello'']
     = QueryRun ([no_index_message], [], Returned, Map.empty)"
proof -
  have s3: "str_nat 3 = ''3''" and s8080: "str_nat 8080 = ''8080''"
    by (simp_all add: str_nat.simps digit_def)
  note inst = command_surface_subcommands
    [where ds = "[''a.pdf'', ''b.txt'']" and imgs = "[''c.png'']" and p = "''cat.png''"
       and D = sample_deps and qf = answering and exe = "''python''" and files = Map.empty
       and ia = "\<lparr>arg_all = True, arg_documents = None, arg_images = None\<rparr>"
       and aa = "\<lparr>arg_port = 8080\<rparr>"
       and qa = "\<lparr>arg_question = Some ''hello'', arg_image = None, arg_top_k = 5\<rparr>"]
  from inst [where q = "''What is AWS Bedrock?''" and k = 3 and argv = "[''app'']" and loaded = True]
  have i: "parse_args [''ingest'', ''--documents'', ''a.pdf'', ''b.txt'', ''--images'', ''c.png'']
     = Inr (RunIngest \<lparr>arg_all = False, arg_documents = Some [''a.pdf'', ''b.txt''],
                      arg_images = Some [''c.png'']\<rparr>)"
    and q: "parse_args [''query'', ''What is AWS Bedrock?'', ''--image'', ''cat.png'', ''--top-k'', ''3'']
     = Inr (RunQuery \<lparr>arg_question = Some ''What is AWS Bedrock?'', arg_image = Some ''cat.png'',
                     arg_top_k = 3\<rparr>)"
    by (simp_all add: s3)
  from inst [where q = "''hello''" and k = 8080 and argv = "[''app'', ''--port'', ''8080'']" and loaded = True]
  have a: "main sample_deps True answering ''python'' Map.empty [''app'', ''--port'', ''8080'']
     = AppRun [''python'', ''-m'', ''streamlit'', ''run'', ''app.py'', ''--server.port'', ''8080'',
               ''--server.headless'', ''true'']"
    by (simp add: s8080 str_int_def)
  from inst [where q = "''hello''" and k = 8080 and argv = "[''query'', ''hello'']" and loaded = False]
  have h: "main sample_deps False answering ''python'' Map.empty [''query'', ''hello'']
     = QueryRun ([no_index_message], [], Returned, Map.empty)"
    by (simp add: cmd_query_def)
  from i q a h show ?thesis by (intro conjI)
qed

end
